theory Spec2Isabelle
  imports Main "HOL-Library.AList" "HOL-Library.Sublist"
begin

section \<open>Go values\<close>

text \<open>
  A Go \<open>error\<close> is represented by its \<open>Error()\<close> text; \<open>fmt.Errorf("ctx: %w", err)\<close> is
  the text \<open>ctx: \<close> followed by the text of \<open>err\<close>. A run-time panic (a nil pointer
  dereference) is a separate constructor, so that it is never confused with a returned
  error. A function that returns \<open>error\<close> alone is modelled with \<open>error option\<close>
  (\<open>None\<close> is Go's \<open>nil\<close>); a function that returns a value and an error with
  \<open>error + 'a\<close>.

  A Go \<open>map[string]V\<close> is an association list with pairwise distinct keys; the order of
  the list is the (unspecified) order in which \<open>range\<close> visits the entries, and the
  assignment \<open>m[k] = v\<close> is \<open>AList.update k v m\<close>. A pointer that the source compares
  with \<open>nil\<close> or dereferences is an \<open>option\<close>.
\<close>

datatype error = Error string | Panic string

definition nil_dereference :: error where
  "nil_dereference = Panic ''invalid memory address or nil pointer dereference''"

type_synonym 'v gomap = "(string \<times> 'v) list"

section \<open>Mesh bootstrap: the catalog registration payloads\<close>

subsection \<open>Data of the Consul API touched by mesh-init\<close>

record Locality =
  Region :: string
  Zone :: string

record ServiceAddress =
  Address :: string
  Port :: int

record AgentWeights =
  Passing :: int
  Warning :: int

record AgentServiceConnectProxyConfig =
  DestinationServiceName :: string
  DestinationServiceID :: string
  LocalServicePort :: int

text \<open>Health checks are produced by \<open>constructChecks\<close> and only carried along.\<close>

typedecl HealthCheck

text \<open>The fields of \<open>api.AgentService\<close> that the constructors read or write.\<close>

record AgentService =
  ID :: string
  Service :: string
  Kind :: string
  Address :: string
  Port :: int
  Meta :: "string gomap"
  Tags :: "string list"
  Proxy :: "AgentServiceConnectProxyConfig option"
  Partition :: string
  Namespace :: string
  Weights :: AgentWeights
  EnableTagOverride :: bool
  Locality :: "Locality option"
  TaggedAddresses :: "ServiceAddress gomap"

record CatalogRegistration =
  Node :: string
  NodeMeta :: "string gomap"
  Address :: string
  Service :: AgentService
  Checks :: "HealthCheck list"
  Partition :: string
  SkipNodeUpdate :: bool

definition ServiceKindConnectProxy :: string where
  "ServiceKindConnectProxy = ''connect-proxy''"

definition ServiceKindMeshGateway :: string where
  "ServiceKindMeshGateway = ''mesh-gateway''"

subsection \<open>Task metadata and configuration\<close>

record ECSTaskMeta =
  Family :: string
  TaskARN :: string
  AvailabilityZone :: string

record GatewayAddress =
  Address :: string
  Port :: int

text \<open>
  The fields of the configuration that the constructors read. \<open>Gateway\<close>, \<open>LanAddress\<close>
  and \<open>WanAddress\<close> are pointers in the source (they are compared with \<open>nil\<close>).
\<close>

record GatewayRegistration =
  Kind :: string
  Name :: string
  Meta :: "string gomap"
  LanAddress :: "GatewayAddress option"
  WanAddress :: "GatewayAddress option"

record ServiceRegistration =
  Name :: string
  Meta :: "string gomap"

record Config =
  Gateway :: "GatewayRegistration option"
  Service :: ServiceRegistration

text \<open>
  The packages \<open>config\<close> and \<open>awsutil\<close> are used by mesh-init but their sources are not
  part of the verified files. Every function and constant of theirs that the
  constructors call is a parameter, collected in one record; the theorems hold for
  every choice of them. \<open>ToLower\<close> stands for \<open>strings.ToLower\<close>. The \<open>ToConsulType\<close>
  conversions return non-nil pointers and are modelled as returning values.
\<close>

record deps =
  TaskID :: "ECSTaskMeta \<Rightarrow> string"
  NodeIP :: "ECSTaskMeta \<Rightarrow> string"
  GetAWSRegion :: string
  IsGateway :: "Config \<Rightarrow> bool"
  Service_ToConsulType :: "ServiceRegistration \<Rightarrow> AgentService"
  Gateway_ToConsulType :: "GatewayRegistration \<Rightarrow> AgentService"
  GatewayAddress_ToConsulType :: "GatewayAddress \<Rightarrow> ServiceAddress"
  Proxy_ToConsulType :: "Config \<Rightarrow> AgentServiceConnectProxyConfig"
  Proxy_GetPublicListenerPort :: "Config \<Rightarrow> int"
  constructChecks :: "AgentService \<Rightarrow> HealthCheck list"
  DefaultGatewayPort :: int
  TaggedAddressLAN :: string
  TaggedAddressWAN :: string
  SyntheticNode :: string
  ToLower :: "string \<Rightarrow> string"

subsection \<open>The constructors of \<open>subcommand/mesh-init\<close>\<close>

text \<open>
  \<open>mergeMeta\<close>: two \<open>range\<close> loops that assign every entry of \<open>m1\<close>, then every entry of
  \<open>m2\<close>, into a fresh map.
\<close>

definition mergeMeta :: "string gomap \<Rightarrow> string gomap \<Rightarrow> string gomap" where
  "mergeMeta m1 m2 =
     (let result = [];
          result = fold (\<lambda>(k, v) result. AList.update k v result) m1 result;
          result = fold (\<lambda>(k, v) result. AList.update k v result) m2 result
      in result)"

definition getNodeMeta :: "deps \<Rightarrow> string gomap" where
  "getNodeMeta X = [(SyntheticNode X, ''true'')]"

definition makeServiceID :: "string \<Rightarrow> string \<Rightarrow> string" where
  "makeServiceID serviceName taskID = serviceName @ ''-'' @ taskID"

definition makeProxySvcIDAndName :: "string \<Rightarrow> string \<Rightarrow> string \<times> string" where
  "makeProxySvcIDAndName serviceID serviceName =
     (serviceID @ ''-sidecar-proxy'', serviceName @ ''-sidecar-proxy'')"

definition getLocalityParams :: "deps \<Rightarrow> ECSTaskMeta \<Rightarrow> Locality option" where
  "getLocalityParams X taskMeta =
     (let region = GetAWSRegion X; zone = AvailabilityZone taskMeta
      in if region = '''' then None else Some \<lparr>Region = region, Zone = zone\<rparr>)"

text \<open>
  \<open>constructServiceName\<close> reads \<open>c.config.Gateway.Name\<close> when \<open>IsGateway\<close> answers true;
  with a nil \<open>Gateway\<close> that read panics.
\<close>

definition constructServiceName :: "deps \<Rightarrow> Config \<Rightarrow> string \<Rightarrow> error + string" where
  "constructServiceName X cfg family =
     (case (if IsGateway X cfg then map_option GatewayRegistration.Name (Gateway cfg)
            else Some (ServiceRegistration.Name (Config.Service cfg))) of
        None \<Rightarrow> Inl nil_dereference
      | Some configName \<Rightarrow>
          Inr (if configName = '''' then ToLower X family else configName))"

definition constructCatalogRegistrationPayload ::
    "deps \<Rightarrow> AgentService \<Rightarrow> ECSTaskMeta \<Rightarrow> string \<Rightarrow> CatalogRegistration" where
  "constructCatalogRegistrationPayload X service taskMeta clusterARN =
     \<lparr>Node = clusterARN,
      NodeMeta = getNodeMeta X,
      Address = NodeIP X taskMeta,
      Service = service,
      Checks = constructChecks X service,
      Partition = AgentService.Partition service,
      SkipNodeUpdate = True\<rparr>"

definition constructServiceRegistration ::
    "deps \<Rightarrow> Config \<Rightarrow> ECSTaskMeta \<Rightarrow> string \<Rightarrow> error + CatalogRegistration" where
  "constructServiceRegistration X cfg taskMeta clusterARN =
     (case constructServiceName X cfg (Family taskMeta) of
        Inl e \<Rightarrow> Inl e
      | Inr serviceName \<Rightarrow>
          (let taskID = TaskID X taskMeta;
               serviceID = makeServiceID serviceName taskID;
               fullMeta = mergeMeta
                 [(''task-id'', taskID), (''task-arn'', TaskARN taskMeta), (''source'', ''consul-ecs'')]
                 (ServiceRegistration.Meta (Config.Service cfg));
               service = Service_ToConsulType X (Config.Service cfg);
               service = service\<lparr>AgentService.ID := serviceID,
                                 AgentService.Service := serviceName,
                                 AgentService.Meta := fullMeta,
                                 AgentService.Address := NodeIP X taskMeta,
                                 AgentService.Locality := getLocalityParams X taskMeta\<rparr>
           in Inr (constructCatalogRegistrationPayload X service taskMeta clusterARN)))"

definition constructProxyRegistration ::
    "deps \<Rightarrow> Config \<Rightarrow> CatalogRegistration \<Rightarrow> ECSTaskMeta \<Rightarrow> string \<Rightarrow> CatalogRegistration" where
  "constructProxyRegistration X cfg serviceRegistration taskMeta clusterARN =
     (let svc = CatalogRegistration.Service serviceRegistration;
          (proxySvcID, proxySvcName) =
             makeProxySvcIDAndName (AgentService.ID svc) (AgentService.Service svc);
          proxy = Proxy_ToConsulType X cfg;
          proxy = proxy\<lparr>DestinationServiceID := AgentService.ID svc,
                         DestinationServiceName := AgentService.Service svc,
                         LocalServicePort := AgentService.Port svc\<rparr>;
          proxyService =
            \<lparr>AgentService.ID = proxySvcID,
             AgentService.Service = proxySvcName,
             AgentService.Kind = ServiceKindConnectProxy,
             AgentService.Address = NodeIP X taskMeta,
             AgentService.Port = Proxy_GetPublicListenerPort X cfg,
             AgentService.Meta = AgentService.Meta svc,
             AgentService.Tags = AgentService.Tags svc,
             AgentService.Proxy = Some proxy,
             AgentService.Partition = AgentService.Partition svc,
             AgentService.Namespace = AgentService.Namespace svc,
             AgentService.Weights = AgentService.Weights svc,
             AgentService.EnableTagOverride = AgentService.EnableTagOverride svc,
             AgentService.Locality = AgentService.Locality svc,
             AgentService.TaggedAddresses = []\<rparr>
      in constructCatalogRegistrationPayload X proxyService taskMeta clusterARN)"

text \<open>
  The body of \<open>case api.ServiceKindMeshGateway\<close> in
  \<open>constructGatewayProxyRegistration\<close>: default port, LAN address, WAN address, and
  the tagged addresses, which are stored only when there is at least one.
\<close>

definition meshGatewayCase :: "deps \<Rightarrow> GatewayRegistration \<Rightarrow> AgentService \<Rightarrow> AgentService" where
  "meshGatewayCase X g gatewaySvc =
     (let taggedAddresses = [];
          gatewaySvc = gatewaySvc\<lparr>AgentService.Port := DefaultGatewayPort X\<rparr>;
          (gatewaySvc, taggedAddresses) =
            (case LanAddress g of
               None \<Rightarrow> (gatewaySvc, taggedAddresses)
             | Some la \<Rightarrow>
                 (let lanAddr = GatewayAddress_ToConsulType X la;
                      gatewaySvc =
                        (if ServiceAddress.Port lanAddr > 0
                         then gatewaySvc\<lparr>AgentService.Port := ServiceAddress.Port lanAddr\<rparr>
                         else gatewaySvc)
                  in if ServiceAddress.Address lanAddr \<noteq> ''''
                     then (gatewaySvc\<lparr>AgentService.Address := ServiceAddress.Address lanAddr\<rparr>,
                           AList.update (TaggedAddressLAN X) lanAddr taggedAddresses)
                     else (gatewaySvc, taggedAddresses)));
          taggedAddresses =
            (case WanAddress g of
               None \<Rightarrow> taggedAddresses
             | Some wa \<Rightarrow>
                 (let wanAddr = GatewayAddress_ToConsulType X wa
                  in if ServiceAddress.Address wanAddr \<noteq> ''''
                     then (let wanAddr =
                                 (if ServiceAddress.Port wanAddr = 0
                                  then wanAddr\<lparr>ServiceAddress.Port := AgentService.Port gatewaySvc\<rparr>
                                  else wanAddr)
                           in AList.update (TaggedAddressWAN X) wanAddr taggedAddresses)
                     else taggedAddresses))
      in if length taggedAddresses > 0
         then gatewaySvc\<lparr>AgentService.TaggedAddresses := taggedAddresses\<rparr>
         else gatewaySvc)"

text \<open>
  \<open>constructGatewayProxyRegistration\<close> dereferences \<open>c.config.Gateway\<close> on every path
  (\<open>c.config.Gateway.Meta\<close>, \<open>c.config.Gateway.Kind\<close>); with a nil \<open>Gateway\<close> it panics.
\<close>

definition constructGatewayProxyRegistration ::
    "deps \<Rightarrow> Config \<Rightarrow> ECSTaskMeta \<Rightarrow> string \<Rightarrow> error + CatalogRegistration" where
  "constructGatewayProxyRegistration X cfg taskMeta clusterARN =
     (case constructServiceName X cfg (Family taskMeta) of
        Inl e \<Rightarrow> Inl e
      | Inr serviceName \<Rightarrow>
          (case Gateway cfg of
             None \<Rightarrow> Inl nil_dereference
           | Some g \<Rightarrow>
               (let taskID = TaskID X taskMeta;
                    serviceID = makeServiceID serviceName taskID;
                    gatewaySvc = Gateway_ToConsulType X g;
                    gatewaySvc = gatewaySvc\<lparr>
                      AgentService.ID := serviceID,
                      AgentService.Service := serviceName,
                      AgentService.Address := NodeIP X taskMeta,
                      AgentService.Meta := mergeMeta
                        [(''task-id'', taskID), (''task-arn'', TaskARN taskMeta),
                         (''source'', ''consul-ecs'')]
                        (GatewayRegistration.Meta g)\<rparr>;
                    gatewaySvc =
                      (if GatewayRegistration.Kind g = ServiceKindMeshGateway
                       then meshGatewayCase X g gatewaySvc else gatewaySvc)
                in Inr (constructCatalogRegistrationPayload X gatewaySvc taskMeta clusterARN))))"

subsection \<open>An instance for the examples\<close>

text \<open>
  One choice of the parameters, with the values the upstream \<open>config\<close> package uses for
  the constants, and a task and two configurations to evaluate the constructors on.
\<close>

definition example_deps :: deps where
  "example_deps =
     \<lparr>TaskID = (\<lambda>_. ''abcdef''),
      NodeIP = (\<lambda>_. ''10.1.2.3''),
      GetAWSRegion = ''us-east-1'',
      IsGateway = (\<lambda>cfg. case Gateway cfg of None \<Rightarrow> False
                          | Some g \<Rightarrow> GatewayRegistration.Kind g \<noteq> ''''),
      Service_ToConsulType = (\<lambda>s.
        \<lparr>AgentService.ID = '''', AgentService.Service = ServiceRegistration.Name s,
         AgentService.Kind = '''', AgentService.Address = '''', AgentService.Port = 8080,
         AgentService.Meta = ServiceRegistration.Meta s, AgentService.Tags = [],
         AgentService.Proxy = None, AgentService.Partition = '''', AgentService.Namespace = '''',
         AgentService.Weights = \<lparr>Passing = 1, Warning = 1\<rparr>,
         AgentService.EnableTagOverride = False, AgentService.Locality = None,
         AgentService.TaggedAddresses = []\<rparr>),
      Gateway_ToConsulType = (\<lambda>g.
        \<lparr>AgentService.ID = '''', AgentService.Service = '''',
         AgentService.Kind = GatewayRegistration.Kind g, AgentService.Address = '''',
         AgentService.Port = 0,
         AgentService.Meta = GatewayRegistration.Meta g, AgentService.Tags = [],
         AgentService.Proxy = None, AgentService.Partition = '''', AgentService.Namespace = '''',
         AgentService.Weights = \<lparr>Passing = 1, Warning = 1\<rparr>,
         AgentService.EnableTagOverride = False, AgentService.Locality = None,
         AgentService.TaggedAddresses = []\<rparr>),
      GatewayAddress_ToConsulType = (\<lambda>a.
        \<lparr>ServiceAddress.Address = GatewayAddress.Address a,
         ServiceAddress.Port = GatewayAddress.Port a\<rparr>),
      Proxy_ToConsulType = (\<lambda>_.
        \<lparr>DestinationServiceName = '''', DestinationServiceID = '''', LocalServicePort = 0\<rparr>),
      Proxy_GetPublicListenerPort = (\<lambda>_. 20000),
      constructChecks = (\<lambda>_. []),
      DefaultGatewayPort = 8443,
      TaggedAddressLAN = ''lan'',
      TaggedAddressWAN = ''wan'',
      SyntheticNode = ''synthetic-node'',
      ToLower = (\<lambda>s. s)\<rparr>"

definition example_taskMeta :: ECSTaskMeta where
  "example_taskMeta =
     \<lparr>Family = ''web'', TaskARN = ''arn:aws:ecs:us-east-1:123456789:task/test/abcdef'',
      AvailabilityZone = ''us-east-1a''\<rparr>"

definition example_service_config :: Config where
  "example_service_config =
     \<lparr>Gateway = None,
      Service = \<lparr>ServiceRegistration.Name = ''web'',
                 ServiceRegistration.Meta = [(''source'', ''mine''), (''team'', ''core'')]\<rparr>\<rparr>"

definition example_gateway_config :: "GatewayAddress option \<Rightarrow> GatewayAddress option \<Rightarrow> Config" where
  "example_gateway_config lan wan =
     \<lparr>Gateway = Some \<lparr>GatewayRegistration.Kind = ''mesh-gateway'',
                       GatewayRegistration.Name = ''gw'', GatewayRegistration.Meta = [],
                       LanAddress = lan, WanAddress = wan\<rparr>,
      Service = \<lparr>ServiceRegistration.Name = '''', ServiceRegistration.Meta = []\<rparr>\<rparr>"


section \<open>Credential reconciliation: the controller's resources\<close>

subsection \<open>Strings\<close>

text \<open>
  \<open>strings.Contains\<close> and \<open>strings.Split\<close> with a one-character separator. \<open>Split\<close>
  returns one more piece than there are separators; the empty string gives one empty
  piece.
\<close>

fun Contains :: "string \<Rightarrow> string \<Rightarrow> bool" where
  "Contains [] substr = (substr = [])"
| "Contains (c # s) substr = (prefix substr (c # s) \<or> Contains s substr)"

fun Split :: "string \<Rightarrow> char \<Rightarrow> string list" where
  "Split [] sep = [[]]"
| "Split (c # s) sep =
     (if c = sep then [] # Split s sep
      else (case Split s sep of [] \<Rightarrow> [[c]] | piece # pieces \<Rightarrow> (c # piece) # pieces))"

subsection \<open>Data\<close>

text \<open>
  The fields of \<open>api.ACLToken\<close> that the controller reads or writes; a service identity
  is represented by its \<open>ServiceName\<close>.
\<close>

record ACLToken =
  AccessorID :: string
  SecretID :: string
  Description :: string
  ServiceIdentities :: "string list"

record tokenSecretJSON =
  AccessorID :: string
  Token :: string

record Tag =
  Key :: "string option"
  Value :: "string option"

record Task =
  TaskDefinitionArn :: "string option"
  Tags :: "Tag option list"

record ListTasksInput =
  Cluster :: string
  NextToken :: "string option"

record ListTasksOutput =
  TaskArns :: "string option list"
  NextToken :: "string option"

record DescribeTasksInput =
  Cluster :: string
  Tasks :: "string option list"
  Include :: "string list"

record DescribeTasksOutput =
  Tasks :: "Task option list"

text \<open>
  The ECS client is an interface; a client is any pair of functions from requests to
  responses. A failed call returns the text of its error.
\<close>

record ECSAPI =
  ListTasks :: "ListTasksInput \<Rightarrow> string + ListTasksOutput"
  DescribeTasks :: "DescribeTasksInput \<Rightarrow> string + DescribeTasksOutput"

record TaskDefinitionLister =
  ECSClient :: ECSAPI
  Cluster :: string
  SecretPrefix :: string

record TaskFamily =
  Cluster :: string
  SecretPrefix :: string
  TaskFamily :: string


subsection \<open>Consul and Secrets Manager\<close>

text \<open>
  The Consul ACL endpoint and Secrets Manager are stateful services behind client
  interfaces. The model keeps their state: the tokens that exist in Consul, in the
  order of their creation, and the secrets by name (\<open>Some None\<close> is a secret without a
  string value, for which the SDK returns a nil \<open>SecretString\<close>). It also records every
  client call made and every line logged, oldest first.
\<close>

datatype call =
    SM_Get string
  | SM_Update string string
  | Consul_List
  | Consul_Read string
  | Consul_Create string "string list"
  | Consul_Delete string

record world =
  acl_tokens :: "ACLToken list"
  secrets :: "string \<rightharpoonup> string option"
  calls :: "call list"
  logs :: "(string \<times> string list) list"

text \<open>
  What the services decide on their own is given by an environment: \<open>fault n\<close> is the
  error with which the \<open>n\<close>-th client call fails (network, throttling, permissions), if
  it does; \<open>issue n\<close> is the accessor and secret identifier Consul assigns if the \<open>n\<close>-th
  call creates a token. \<open>Unmarshal\<close> and \<open>Marshal\<close> stand for \<open>encoding/json\<close> at the
  type \<open>tokenSecretJSON\<close>, and \<open>Quote\<close> for the verb \<open>%q\<close> of \<open>fmt\<close>.
\<close>

record env =
  fault :: "nat \<Rightarrow> string option"
  issue :: "nat \<Rightarrow> string \<times> string"
  Unmarshal :: "string \<Rightarrow> string + tokenSecretJSON"
  Marshal :: "tokenSecretJSON \<Rightarrow> string + string"
  Quote :: "string \<Rightarrow> string"

definition ACLNotFound :: string where
  "ACLNotFound = ''Unexpected response code: 403 (ACL not found)''"

definition ResourceNotFound :: string where
  "ResourceNotFound =
     ''ResourceNotFoundException: Secrets Manager can't find the specified secret.''"

text \<open>
  The client calls. Each is recorded, fails if the environment says so, and otherwise
  answers from the state: reading or updating a secret that does not exist and reading
  or deleting a token that does not exist are errors of the service.
\<close>

definition record_call :: "call \<Rightarrow> world \<Rightarrow> world" where
  "record_call c w = w\<lparr>calls := calls w @ [c]\<rparr>"

definition GetSecretValue :: "env \<Rightarrow> string \<Rightarrow> world \<Rightarrow> (string + string option) \<times> world" where
  "GetSecretValue E SecretId w =
     (case fault E (length (calls w)) of
        Some err \<Rightarrow> Inl err
      | None \<Rightarrow> (case secrets w SecretId of
                   None \<Rightarrow> Inl ResourceNotFound
                 | Some SecretString \<Rightarrow> Inr SecretString),
      record_call (SM_Get SecretId) w)"

definition UpdateSecret :: "env \<Rightarrow> string \<Rightarrow> string \<Rightarrow> world \<Rightarrow> string option \<times> world" where
  "UpdateSecret E SecretId SecretString w =
     (case fault E (length (calls w)) of
        Some err \<Rightarrow> (Some err, record_call (SM_Update SecretId SecretString) w)
      | None \<Rightarrow>
          (case secrets w SecretId of
             None \<Rightarrow> (Some ResourceNotFound, record_call (SM_Update SecretId SecretString) w)
           | Some _ \<Rightarrow>
               (None, record_call (SM_Update SecretId SecretString)
                        (w\<lparr>secrets := (secrets w)(SecretId \<mapsto> Some SecretString)\<rparr>))))"

definition TokenRead :: "env \<Rightarrow> string \<Rightarrow> world \<Rightarrow> (string + ACLToken) \<times> world" where
  "TokenRead E accessorID w =
     (case fault E (length (calls w)) of
        Some err \<Rightarrow> Inl err
      | None \<Rightarrow> (case find (\<lambda>tok. ACLToken.AccessorID tok = accessorID) (acl_tokens w) of
                   None \<Rightarrow> Inl ACLNotFound
                 | Some tok \<Rightarrow> Inr tok),
      record_call (Consul_Read accessorID) w)"

definition TokenCreate ::
    "env \<Rightarrow> string \<Rightarrow> string list \<Rightarrow> world \<Rightarrow> (string + ACLToken) \<times> world" where
  "TokenCreate E description identities w =
     (case fault E (length (calls w)) of
        Some err \<Rightarrow> (Inl err, record_call (Consul_Create description identities) w)
      | None \<Rightarrow>
          (let tok = \<lparr>ACLToken.AccessorID = fst (issue E (length (calls w))),
                      SecretID = snd (issue E (length (calls w))),
                      Description = description,
                      ServiceIdentities = identities\<rparr>
           in (Inr tok, record_call (Consul_Create description identities)
                          (w\<lparr>acl_tokens := acl_tokens w @ [tok]\<rparr>))))"

definition TokenDelete :: "env \<Rightarrow> string \<Rightarrow> world \<Rightarrow> string option \<times> world" where
  "TokenDelete E accessorID w =
     (case fault E (length (calls w)) of
        Some err \<Rightarrow> (Some err, record_call (Consul_Delete accessorID) w)
      | None \<Rightarrow>
          (if accessorID \<in> ACLToken.AccessorID ` set (acl_tokens w)
           then (None, record_call (Consul_Delete accessorID)
                         (w\<lparr>acl_tokens := filter (\<lambda>tok. ACLToken.AccessorID tok \<noteq> accessorID) (acl_tokens w)\<rparr>))
           else (Some ACLNotFound, record_call (Consul_Delete accessorID) w)))"

text \<open>The list endpoint returns an entry for every token; the controller reads its accessor.\<close>

definition ACL_TokenList :: "env \<Rightarrow> world \<Rightarrow> (string + string list) \<times> world" where
  "ACL_TokenList E w =
     (case fault E (length (calls w)) of
        Some err \<Rightarrow> Inl err
      | None \<Rightarrow> Inr (map ACLToken.AccessorID (acl_tokens w)),
      record_call Consul_List w)"

definition Log_Info :: "string \<Rightarrow> string list \<Rightarrow> world \<Rightarrow> world" where
  "Log_Info msg args w = w\<lparr>logs := logs w @ [(msg, args)]\<rparr>"

text \<open>\<open>fmt.Errorf("ctx: %w", err)\<close>; a panic is not an error value and passes through.\<close>

fun wrap :: "string \<Rightarrow> error \<Rightarrow> error" where
  "wrap ctx (Error text) = Error (ctx @ text)"
| "wrap ctx (Panic text) = Panic text"

subsection \<open>Helpers of the controller\<close>

definition secretName :: "string \<Rightarrow> string \<Rightarrow> string" where
  "secretName secretPrefix family = secretPrefix @ ''-'' @ family"



definition isACLNotFoundError :: "string option \<Rightarrow> bool" where
  "isACLNotFoundError err =
     (err \<noteq> None \<and> Contains (the err) ''Unexpected response code: 403 (ACL not found)'')"


subsection \<open>\<open>TaskDefinitionLister.List\<close>\<close>





subsection \<open>\<open>TaskDefinitionLister.TokenList\<close>\<close>

text \<open>
  The loop over the listed entries. The result map is returned together with the error,
  as in the source, which returns the groups collected so far when a read fails.
\<close>

fun readTokens ::
    "env \<Rightarrow> string list \<Rightarrow> ACLToken list gomap \<Rightarrow> world
       \<Rightarrow> (ACLToken list gomap \<times> error option) \<times> world" where
  "readTokens E [] tokens w = ((tokens, None), w)"
| "readTokens E (accessorID # tokenList) tokens w =
     (case TokenRead E accessorID w of
        (Inl err, w) \<Rightarrow> ((tokens, Some (Error (''reading token: '' @ err))), w)
      | (Inr token, w) \<Rightarrow>
          (if length (ServiceIdentities token) = 1
           then (let family = ServiceIdentities token ! 0;
                     tokens = AList.update family
                                ((case map_of tokens family of None \<Rightarrow> [] | Some existing \<Rightarrow> existing)
                                  @ [token]) tokens
                 in readTokens E tokenList tokens w)
           else readTokens E tokenList tokens w))"

definition TokenList :: "env \<Rightarrow> world \<Rightarrow> (ACLToken list gomap \<times> error option) \<times> world" where
  "TokenList E w =
     (let tokens = [] in
      case ACL_TokenList E w of
        (Inl err, w) \<Rightarrow> ((tokens, Some (Error (''reading token list: '' @ err))), w)
      | (Inr tokenList, w) \<Rightarrow> readTokens E tokenList tokens w)"

subsection \<open>\<open>TaskFamily.Upsert\<close> and \<open>updateServiceToken\<close>\<close>

definition updateServiceToken :: "env \<Rightarrow> TaskFamily \<Rightarrow> world \<Rightarrow> error option \<times> world" where
  "updateServiceToken E t w =
     (let serviceName = TaskFamily t;
          name = secretName (TaskFamily.SecretPrefix t) (TaskFamily t);
          w = Log_Info ''creating service token'' [''id'', serviceName] w
      in case TokenCreate E (''Token for '' @ serviceName @ '' service'') [serviceName] w of
           (Inl err, w) \<Rightarrow> (Some (Error (''creating envoy token: '' @ err)), w)
         | (Inr serviceToken, w) \<Rightarrow>
             (let w = Log_Info ''service token created successfully'' [''service'', serviceName] w
              in case Marshal E \<lparr>tokenSecretJSON.AccessorID = ACLToken.AccessorID serviceToken,
                                  Token = SecretID serviceToken\<rparr> of
                   Inl err \<Rightarrow> (Some (Error err), w)
                 | Inr serviceSecretValue \<Rightarrow>
                     (let w = Log_Info ''updating secret'' [''name'', name] w
                      in case UpdateSecret E name serviceSecretValue w of
                           (Some err, w) \<Rightarrow> (Some (Error (''updating secret: '' @ err)), w)
                         | (None, w) \<Rightarrow>
                             (None, Log_Info ''secret updated successfully'' [''name'', name] w))))"

text \<open>
  The end of \<open>Upsert\<close>, reached when no token was found: create one, and wrap the error
  of \<open>updateServiceToken\<close> if it fails.
\<close>

definition Upsert_create :: "env \<Rightarrow> TaskFamily \<Rightarrow> world \<Rightarrow> error option \<times> world" where
  "Upsert_create E t w =
     (case updateServiceToken E t w of
        (Some err, w) \<Rightarrow> (Some (wrap ''updating service token: '' err), w)
      | (None, w) \<Rightarrow> (None, w))"

text \<open>
  \<open>Upsert\<close>. \<open>TokenRead\<close> returns either a token or an error, so \<open>currToken\<close> is non-nil
  exactly when the read succeeded. Dereferencing a nil \<open>SecretString\<close> panics.
\<close>

definition Upsert :: "env \<Rightarrow> TaskFamily \<Rightarrow> world \<Rightarrow> error option \<times> world" where
  "Upsert E t w =
     (let serviceName = TaskFamily t;
          name = secretName (TaskFamily.SecretPrefix t) (TaskFamily t)
      in case GetSecretValue E name w of
           (Inl err, w) \<Rightarrow> (Some (Error (''retrieving secret: '' @ err)), w)
         | (Inr None, w) \<Rightarrow> (Some nil_dereference, w)
         | (Inr (Some SecretString), w) \<Rightarrow>
             (case Unmarshal E SecretString of
                Inl err \<Rightarrow> (Some (Error (''unmarshalling secret value: '' @ err)), w)
              | Inr currSecret \<Rightarrow>
                  if tokenSecretJSON.AccessorID currSecret \<noteq> ''''
                  then (case TokenRead E (tokenSecretJSON.AccessorID currSecret) w of
                          (Inl err, w) \<Rightarrow>
                            if \<not> isACLNotFoundError (Some err)
                            then (Some (Error (''reading existing token: '' @ err)), w)
                            else Upsert_create E t w
                        | (Inr currToken, w) \<Rightarrow>
                            (None, Log_Info ''token already exists; skipping token creation''
                                     [''id'', serviceName] w))
                  else Upsert_create E t w))"

subsection \<open>\<open>TaskDefinitionLister.DeleteTokenInfo\<close>\<close>

text \<open>The loop \<open>for _, token := range tokens\<close>, which returns at the first failed deletion.\<close>

fun deleteTokens :: "env \<Rightarrow> string \<Rightarrow> ACLToken list \<Rightarrow> world \<Rightarrow> error option \<times> world" where
  "deleteTokens E serviceName [] w = (None, w)"
| "deleteTokens E serviceName (token # tokens) w =
     (case TokenDelete E (ACLToken.AccessorID token) w of
        (Some err, w) \<Rightarrow> (Some (Error (''deleting token: '' @ err)), w)
      | (None, w) \<Rightarrow>
          deleteTokens E serviceName tokens
            (Log_Info ''token deleted successfully'' [''service'', serviceName] w))"

definition DeleteTokenInfo ::
    "env \<Rightarrow> TaskDefinitionLister \<Rightarrow> string \<Rightarrow> ACLToken list \<Rightarrow> world \<Rightarrow> error option \<times> world" where
  "DeleteTokenInfo E t serviceName tokens w =
     (let name = secretName (TaskDefinitionLister.SecretPrefix t) serviceName
      in case deleteTokens E serviceName tokens w of
           (Some err, w) \<Rightarrow> (Some err, w)
         | (None, w) \<Rightarrow>
             (let w = Log_Info ''updating secret'' [''name'', name, ''service'', serviceName] w
              in case UpdateSecret E name ''{}'' w of
                   (Some err, w) \<Rightarrow> (Some (Error (''updating secret: '' @ err)), w)
                 | (None, w) \<Rightarrow>
                     (None, Log_Info ''secret updated successfully''
                              [''name'', name, ''service'', serviceName] w)))"

subsection \<open>Notions used in the statements\<close>

text \<open>The token that Consul creates for a family when the \<open>n\<close>-th call is a successful creation.\<close>

definition issued :: "env \<Rightarrow> string \<Rightarrow> nat \<Rightarrow> ACLToken" where
  "issued E family n =
     \<lparr>ACLToken.AccessorID = fst (issue E n), SecretID = snd (issue E n),
      Description = ''Token for '' @ family @ '' service'', ServiceIdentities = [family]\<rparr>"


text \<open>
  A token is owned by the controller for a family when its only service identity is the
  family: this is the test by which \<open>TokenList\<close> groups tokens.
\<close>

definition owned :: "string \<Rightarrow> ACLToken \<Rightarrow> bool" where
  "owned family tok = (ServiceIdentities tok = [family])"

definition live :: "world \<Rightarrow> string \<Rightarrow> ACLToken list" where
  "live w family = filter (owned family) (acl_tokens w)"

text \<open>
  A paginated inventory: each page is the list of task ARNs returned by \<open>ListTasks\<close>, the
  tasks returned by \<open>DescribeTasks\<close> for them, and the continuation cursor. A client
  serves a sequence of pages from a cursor when it answers the request for that cursor
  with the first page and serves the rest from the cursor of that page; the cursor of
  the last page, and only of the last page, is nil.
\<close>

type_synonym page = "string option list \<times> Task option list \<times> string option"

definition page_tasks :: "page \<Rightarrow> Task option list" where
  "page_tasks p = fst (snd p)"





text \<open>
  Sequences of reconciliation operations. An operation is a call of \<open>Upsert\<close> on a
  resource or a call of \<open>DeleteTokenInfo\<close> for a family with a list of tokens; \<open>run\<close> is
  the list of the states after each operation.
\<close>

datatype op = OpUpsert TaskFamily | OpDelete string "ACLToken list"

fun exec :: "env \<Rightarrow> TaskDefinitionLister \<Rightarrow> op \<Rightarrow> world \<Rightarrow> error option \<times> world" where
  "exec E l (OpUpsert t) w = Upsert E t w"
| "exec E l (OpDelete family toks) w = DeleteTokenInfo E l family toks w"

fun run :: "env \<Rightarrow> TaskDefinitionLister \<Rightarrow> op list \<Rightarrow> world \<Rightarrow> world list" where
  "run E l [] w = []"
| "run E l (x # xs) w = snd (exec E l x w) # run E l xs (snd (exec E l x w))"

text \<open>
  The conditions under which the controller keeps at most one live credential per
  family. An \<open>Upsert\<close> is clean when it uses the lister's secret prefix and does not
  fail after having created a token; a deletion is clean when its list covers every
  live token owned for the family, as the group returned by \<open>TokenList\<close> does.
\<close>

fun clean_step :: "env \<Rightarrow> TaskDefinitionLister \<Rightarrow> op \<Rightarrow> world \<Rightarrow> bool" where
  "clean_step E l (OpUpsert t) w =
     (TaskFamily.SecretPrefix t = TaskDefinitionLister.SecretPrefix l \<and>
      (fst (Upsert E t w) = None \<or> acl_tokens (snd (Upsert E t w)) = acl_tokens w))"
| "clean_step E l (OpDelete family toks) w =
     (\<forall>tok\<in>set (acl_tokens w). owned family tok \<longrightarrow>
        ACLToken.AccessorID tok \<in> ACLToken.AccessorID ` set toks)"

fun clean_run :: "env \<Rightarrow> TaskDefinitionLister \<Rightarrow> op list \<Rightarrow> world \<Rightarrow> bool" where
  "clean_run E l [] w = True"
| "clean_run E l (x # xs) w = (clean_step E l x w \<and> clean_run E l xs (snd (exec E l x w)))"

text \<open>
  The environment is honest when a failing call never carries the not-found signature
  (Consul reports not-found only for a token that does not exist), the accessors Consul
  issues are not empty and never repeat, and decoding inverts encoding.
\<close>

definition honest :: "env \<Rightarrow> bool" where
  "honest E =
     ((\<forall>n err. fault E n = Some err \<longrightarrow> \<not> isACLNotFoundError (Some err)) \<and>
      inj (\<lambda>n. fst (issue E n)) \<and>
      (\<forall>n. fst (issue E n) \<noteq> '''') \<and>
      (\<forall>v doc. Marshal E v = Inr doc \<longrightarrow> Unmarshal E doc = Inr v))"

text \<open>
  A state is consistent when accessors are unique and not empty, no accessor that is
  still to be issued is in use, and every family has at most one live token owned for
  it, which the secret of the family references.
\<close>

definition consistent :: "env \<Rightarrow> string \<Rightarrow> world \<Rightarrow> bool" where
  "consistent E secretPrefix w =
     (distinct (map ACLToken.AccessorID (acl_tokens w)) \<and>
      (\<forall>tok\<in>set (acl_tokens w). ACLToken.AccessorID tok \<noteq> '''') \<and>
      (\<forall>n\<ge>length (calls w). fst (issue E n) \<notin> ACLToken.AccessorID ` set (acl_tokens w)) \<and>
      (\<forall>family.
         length (live w family) \<le> 1 \<and>
         (\<forall>tok\<in>set (live w family).
            \<exists>doc v. secrets w (secretName secretPrefix family) = Some (Some doc) \<and>
                    Unmarshal E doc = Inr v \<and>
                    tokenSecretJSON.AccessorID v = ACLToken.AccessorID tok)))"

subsection \<open>An environment and states for the examples\<close>

text \<open>
  A codec that agrees with \<open>encoding/json\<close> on the two documents the controller writes,
  \<open>{}\<close> and the compact object with the members \<open>accessor_id\<close> and \<open>token\<close>, for values
  without a double quote; accessors \<open>a\<close>, \<open>aa\<close>, \<open>aaa\<close> and so on, one letter longer for
  every call; and a choice of the calls that fail.
\<close>

definition no_faults :: "nat \<Rightarrow> string option" where
  "no_faults n = None"

definition fault_at :: "nat \<Rightarrow> string \<Rightarrow> nat \<Rightarrow> string option" where
  "fault_at k err n = (if n = k then Some err else None)"

definition dq :: char where
  "dq = CHR 0x22"

definition example_Marshal :: "tokenSecretJSON \<Rightarrow> string + string" where
  "example_Marshal v =
     (if dq \<in> set (tokenSecretJSON.AccessorID v) \<or> dq \<in> set (Token v)
      then Inl ''json: unsupported value''
      else Inr (''{'' @ [dq] @ ''accessor_id'' @ [dq] @ '':'' @ [dq]
                @ tokenSecretJSON.AccessorID v @ [dq] @ '','' @ [dq] @ ''token'' @ [dq]
                @ '':'' @ [dq] @ Token v @ [dq] @ ''}''))"

definition example_Unmarshal :: "string \<Rightarrow> string + tokenSecretJSON" where
  "example_Unmarshal s =
     (if s = ''{}'' then Inr \<lparr>tokenSecretJSON.AccessorID = '''', Token = ''''\<rparr>
      else (case Split s dq of
              [a, k1, b, v1, c, k2, d, v2, e] \<Rightarrow>
                if a = ''{'' \<and> k1 = ''accessor_id'' \<and> b = '':'' \<and> c = '','' \<and> k2 = ''token''
                   \<and> d = '':'' \<and> e = ''}''
                then Inr \<lparr>tokenSecretJSON.AccessorID = v1, Token = v2\<rparr>
                else Inl ''invalid character''
            | _ \<Rightarrow> Inl ''unexpected end of JSON input''))"

definition example_env :: "(nat \<Rightarrow> string option) \<Rightarrow> env" where
  "example_env faults =
     \<lparr>fault = faults,
      issue = (\<lambda>n. (replicate (Suc n) (CHR ''a''), replicate (Suc n) (CHR ''s''))),
      Unmarshal = example_Unmarshal,
      Marshal = example_Marshal,
      Quote = (\<lambda>s. [dq] @ s @ [dq])\<rparr>"

definition example_family :: TaskFamily where
  "example_family =
     \<lparr>TaskFamily.Cluster = ''test'', TaskFamily.SecretPrefix = ''pfx'', TaskFamily = ''web''\<rparr>"

definition empty_secret_world :: world where
  "empty_secret_world =
     \<lparr>acl_tokens = [], secrets = [''pfx-web'' \<mapsto> Some ''{}''], calls = [], logs = []\<rparr>"

definition no_record_world :: world where
  "no_record_world = \<lparr>acl_tokens = [], secrets = Map.empty, calls = [], logs = []\<rparr>"

definition web_token :: ACLToken where
  "web_token =
     \<lparr>ACLToken.AccessorID = ''aa'', SecretID = ''ss'',
      Description = ''Token for web service'', ServiceIdentities = [''web'']\<rparr>"

definition web_secret :: string where
  "web_secret =
     ''{'' @ [dq] @ ''accessor_id'' @ [dq] @ '':'' @ [dq] @ ''aa'' @ [dq] @ '','' @ [dq]
       @ ''token'' @ [dq] @ '':'' @ [dq] @ ''ss'' @ [dq] @ ''}''"

definition served_world :: world where
  "served_world =
     \<lparr>acl_tokens = [web_token], secrets = [''pfx-web'' \<mapsto> Some web_secret],
      calls = [], logs = []\<rparr>"

definition stale_world :: world where
  "stale_world =
     \<lparr>acl_tokens = [], secrets = [''pfx-web'' \<mapsto> Some web_secret], calls = [], logs = []\<rparr>"

text \<open>
  An inventory of three pages with two tagged tasks each, next to an untagged task and a
  nil entry, and the client that serves it with the cursors \<open>p2\<close> and \<open>p3\<close>.
\<close>

definition mesh_task :: "string \<Rightarrow> Task" where
  "mesh_task family =
     \<lparr>TaskDefinitionArn = Some (''arn:aws:ecs:us-east-1:1234567890:task-definition/'' @ family @ '':1''),
      Tags = [Some \<lparr>Key = Some ''team'', Value = Some ''core''\<rparr>,
              Some \<lparr>Key = Some ''consul.hashicorp.com/mesh'', Value = Some ''true''\<rparr>]\<rparr>"

definition plain_task :: "string \<Rightarrow> Task" where
  "plain_task family =
     \<lparr>TaskDefinitionArn = Some (''arn:aws:ecs:us-east-1:1234567890:task-definition/'' @ family @ '':1''),
      Tags = [Some \<lparr>Key = Some ''team'', Value = Some ''core''\<rparr>]\<rparr>"


definition example_ecs :: ECSAPI where
  "example_ecs =
     \<lparr>ListTasks = (\<lambda>input.
        if ListTasksInput.Cluster input \<noteq> ''test'' then Inl ''ClusterNotFoundException''
        else if ListTasksInput.NextToken input = None
          then Inr \<lparr>TaskArns = [Some ''t1'', Some ''t2'', Some ''t3''],
                     ListTasksOutput.NextToken = Some ''p2''\<rparr>
        else if ListTasksInput.NextToken input = Some ''p2''
          then Inr \<lparr>TaskArns = [Some ''t4'', Some ''t5'', Some ''t6''],
                     ListTasksOutput.NextToken = Some ''p3''\<rparr>
        else if ListTasksInput.NextToken input = Some ''p3''
          then Inr \<lparr>TaskArns = [Some ''t7'', Some ''t8''], ListTasksOutput.NextToken = None\<rparr>
        else Inl ''InvalidParameterException''),
      DescribeTasks = (\<lambda>input.
        Inr \<lparr>DescribeTasksOutput.Tasks =
               map (\<lambda>arn. if arn = Some ''t1'' then Some (mesh_task ''web'')
                          else if arn = Some ''t2'' then Some (plain_task ''db'')
                          else if arn = Some ''t3'' then Some (mesh_task ''api'')
                          else if arn = Some ''t5'' then Some (mesh_task ''web'')
                          else if arn = Some ''t6'' then Some (mesh_task ''cart'')
                          else if arn = Some ''t7'' then Some (mesh_task ''api'')
                          else if arn = Some ''t8'' then Some (mesh_task ''pay'')
                          else None)
                   (DescribeTasksInput.Tasks input)\<rparr>)\<rparr>"

definition example_lister :: TaskDefinitionLister where
  "example_lister =
     \<lparr>ECSClient = example_ecs, TaskDefinitionLister.Cluster = ''test'',
      TaskDefinitionLister.SecretPrefix = ''pfx''\<rparr>"

text \<open>
  A state of Consul with two tokens owned for \<open>web\<close>, one for \<open>api\<close>, a token without a
  service identity and a token with two.
\<close>

definition token_of :: "string \<Rightarrow> string list \<Rightarrow> ACLToken" where
  "token_of accessor identities =
     \<lparr>ACLToken.AccessorID = accessor, SecretID = ''secret-'' @ accessor,
      Description = '''', ServiceIdentities = identities\<rparr>"

definition mixed_world :: world where
  "mixed_world =
     \<lparr>acl_tokens = [token_of ''w1'' [''web''], token_of ''m0'' [], token_of ''w2'' [''web''],
                    token_of ''m2'' [''web'', ''api''], token_of ''p1'' [''api'']],
      secrets = [''pfx-web'' \<mapsto> Some web_secret, ''pfx-api'' \<mapsto> Some ''{}''],
      calls = [], logs = []\<rparr>"

text \<open>
  A run for the family \<open>web\<close>: issue, run again, clean up with the issued token, issue
  again.
\<close>

definition example_ops :: "op list" where
  "example_ops =
     [OpUpsert example_family, OpUpsert example_family, OpDelete ''web'' [web_token],
      OpUpsert example_family]"

section \<open>Properties of the catalog registration payloads\<close>

subsection \<open>Merging metadata\<close>

lemma fold_update_lookup:
  "distinct (map fst m) \<Longrightarrow>
   map_of (fold (\<lambda>(k, v) result. AList.update k v result) m r) k =
     (case map_of m k of Some v \<Rightarrow> Some v | None \<Rightarrow> map_of r k)"
proof (induction m arbitrary: r)
  case Nil
  then show ?case by simp
next
  case (Cons a m)
  obtain x y where a: "a = (x, y)" by (cases a)
  from Cons.prems have nx: "map_of m x = None" and d: "distinct (map fst m)"
    by (auto simp: a map_of_eq_None_iff)
  show ?case using Cons.IH[OF d, of "AList.update x y r"] nx
    by (simp add: a update_conv' split: option.splits)
qed

lemma fold_update_distinct:
  "distinct (map fst r) \<Longrightarrow> distinct (map fst (fold (\<lambda>(k, v) result. AList.update k v result) m r))"
  by (induction m arbitrary: r) (auto simp: distinct_update)

lemma mergeMeta_lookup:
  assumes "distinct (map fst m1)" "distinct (map fst m2)"
  shows "map_of (mergeMeta m1 m2) = map_of m1 ++ map_of m2"
proof
  fix k
  show "map_of (mergeMeta m1 m2) k = (map_of m1 ++ map_of m2) k"
    using assms by (simp add: mergeMeta_def fold_update_lookup map_add_def split: option.splits)
qed

lemma mergeMeta_distinct: "distinct (map fst (mergeMeta m1 m2))"
  by (simp add: mergeMeta_def fold_update_distinct)

lemma constructServiceRegistration_Meta:
  "constructServiceRegistration X cfg taskMeta clusterARN = Inr reg \<Longrightarrow>
   AgentService.Meta (CatalogRegistration.Service reg) =
     mergeMeta [(''task-id'', TaskID X taskMeta), (''task-arn'', TaskARN taskMeta), (''source'', ''consul-ecs'')]
       (ServiceRegistration.Meta (Config.Service cfg))"
  by (auto simp: constructServiceRegistration_def constructCatalogRegistrationPayload_def Let_def
      split: sum.splits)

lemma constructServiceName_total:
  "\<not> (IsGateway X cfg \<and> Gateway cfg = None) \<Longrightarrow> \<exists>n. constructServiceName X cfg family = Inr n"
  by (auto simp: constructServiceName_def split: option.splits)

lemma constructServiceRegistration_total:
  assumes "\<not> (IsGateway X cfg \<and> Gateway cfg = None)"
  shows "\<exists>sr. constructServiceRegistration X cfg taskMeta clusterARN = Inr sr"
proof -
  from constructServiceName_total[OF assms] obtain n
    where "constructServiceName X cfg (Family taskMeta) = Inr n" by blast
  then show ?thesis by (simp add: constructServiceRegistration_def Let_def)
qed

text \<open>
  C10. \<open>mergeMeta\<close> returns the key-wise union of its two arguments, and on every shared
  key the value of the second argument wins. \<open>constructServiceRegistration\<close> passes the
  reserved entries \<open>task-id\<close>, \<open>task-arn\<close> and \<open>source\<close> first and the configured
  metadata second, so every key the configuration supplies, the three reserved ones
  included, carries the configured value in the registered service; the reserved values
  remain only under keys the configuration does not supply. (The older
  \<open>subcommand/mesh-init/command.go\<close> has the same \<open>mergeMeta\<close> and the same call.)
\<close>

theorem mergeMeta_user_values_win:
  assumes "distinct (map fst m1)" and "distinct (map fst m2)"
    and "distinct (map fst (ServiceRegistration.Meta (Config.Service cfg)))"
    and "constructServiceRegistration X cfg taskMeta clusterARN = Inr reg"
  shows "map_of (mergeMeta m1 m2) = map_of m1 ++ map_of m2 \<and>
         distinct (map fst (mergeMeta m1 m2)) \<and>
         (\<forall>k v. map_of (ServiceRegistration.Meta (Config.Service cfg)) k = Some v \<longrightarrow>
            map_of (AgentService.Meta (CatalogRegistration.Service reg)) k = Some v) \<and>
         (\<forall>k. map_of (ServiceRegistration.Meta (Config.Service cfg)) k = None \<longrightarrow>
            map_of (AgentService.Meta (CatalogRegistration.Service reg)) k =
              map_of [(''task-id'', TaskID X taskMeta), (''task-arn'', TaskARN taskMeta),
                      (''source'', ''consul-ecs'')] k)"
proof -
  have d: "distinct (map fst [(''task-id'', TaskID X taskMeta), (''task-arn'', TaskARN taskMeta),
                      (''source'', ''consul-ecs'')])" by simp
  show ?thesis
    using mergeMeta_lookup[OF assms(1,2)] mergeMeta_lookup[OF d assms(3)]
      constructServiceRegistration_Meta[OF assms(4)] mergeMeta_distinct[of m1 m2]
    by (simp add: map_add_def)
qed

text \<open>
  The theorem at a concrete input: the configured metadata sets \<open>source\<close>, which
  replaces the reserved value \<open>consul-ecs\<close>, while \<open>task-id\<close> keeps the reserved value.
\<close>

theorem mergeMeta_user_values_win_witness:
  "\<exists>reg. constructServiceRegistration example_deps example_service_config example_taskMeta
            ''arn:cluster'' = Inr reg \<and>
     map_of (mergeMeta [(''a'', ''1''), (''b'', ''2'')] [(''b'', ''3'')]) ''b'' = Some ''3'' \<and>
     map_of (mergeMeta [(''a'', ''1''), (''b'', ''2'')] [(''b'', ''3'')]) ''a'' = Some ''1'' \<and>
     map_of (AgentService.Meta (CatalogRegistration.Service reg)) ''source'' = Some ''mine'' \<and>
     map_of (AgentService.Meta (CatalogRegistration.Service reg)) ''task-id'' = Some ''abcdef''"
proof -
  have n: "\<not> (IsGateway example_deps example_service_config \<and> Gateway example_service_config = None)"
    by (simp add: example_deps_def example_service_config_def)
  obtain reg where reg: "constructServiceRegistration example_deps example_service_config
      example_taskMeta ''arn:cluster'' = Inr reg"
    using constructServiceRegistration_total[OF n] by blast
  have d1: "distinct (map fst [(''a'', ''1''), (''b'', ''2'')])" by simp
  have d2: "distinct (map fst [(''b'', ''3'')])" by simp
  have d3: "distinct (map fst (ServiceRegistration.Meta (Config.Service example_service_config)))"
    by (simp add: example_service_config_def)
  show ?thesis
    using mergeMeta_user_values_win[OF d1 d2 d3 reg] reg
    by (simp add: example_service_config_def example_deps_def)
qed


subsection \<open>Node identity\<close>

text \<open>
  C9. The service entry and the proxy entry built for one task carry the same node name,
  the cluster ARN, and the same node address, the task's node IP.
\<close>

theorem node_identity_shared:
  assumes "\<not> (IsGateway X cfg \<and> Gateway cfg = None)"
  shows "\<exists>sr. constructServiceRegistration X cfg taskMeta clusterARN = Inr sr \<and>
           Node sr = clusterARN \<and>
           Node (constructProxyRegistration X cfg sr taskMeta clusterARN) = clusterARN \<and>
           CatalogRegistration.Address sr = NodeIP X taskMeta \<and>
           CatalogRegistration.Address (constructProxyRegistration X cfg sr taskMeta clusterARN)
             = NodeIP X taskMeta"
proof -
  from constructServiceName_total[OF assms] obtain n
    where n: "constructServiceName X cfg (Family taskMeta) = Inr n" by blast
  show ?thesis
    by (simp add: constructServiceRegistration_def n Let_def constructProxyRegistration_def
        constructCatalogRegistrationPayload_def split: prod.splits)
qed

text \<open>The theorem at the example task, which is not a gateway.\<close>

theorem node_identity_shared_witness:
  "\<exists>sr. constructServiceRegistration example_deps example_service_config example_taskMeta ''arn:cluster'' = Inr sr \<and>
           Node sr = ''arn:cluster'' \<and>
           Node (constructProxyRegistration example_deps example_service_config sr example_taskMeta ''arn:cluster'') = ''arn:cluster'' \<and>
           CatalogRegistration.Address sr = ''10.1.2.3'' \<and>
           CatalogRegistration.Address (constructProxyRegistration example_deps example_service_config sr example_taskMeta ''arn:cluster'')
             = ''10.1.2.3''"
proof -
  have h: "\<not> (IsGateway example_deps example_service_config \<and> Gateway example_service_config = None)"
    by (simp add: example_deps_def example_service_config_def)
  have ip: "NodeIP example_deps example_taskMeta = ''10.1.2.3''"
    by (simp add: example_deps_def)
  show ?thesis
    using node_identity_shared[OF h, of example_taskMeta "''arn:cluster''"] unfolding ip .
qed


subsection \<open>The mesh gateway\<close>

lemma constructGateway_eq:
  assumes "Gateway cfg = Some g"
  shows "\<exists>n svc0. constructGatewayProxyRegistration X cfg taskMeta clusterARN =
      Inr (constructCatalogRegistrationPayload X
        (if GatewayRegistration.Kind g = ServiceKindMeshGateway
         then meshGatewayCase X g svc0 else svc0) taskMeta clusterARN)"
proof -
  have "\<not> (IsGateway X cfg \<and> Gateway cfg = None)" using assms by simp
  from constructServiceName_total[OF this] obtain n
    where n: "constructServiceName X cfg (Family taskMeta) = Inr n" by blast
  show ?thesis
    by (simp add: constructGatewayProxyRegistration_def n assms Let_def) blast
qed

lemma meshGatewayCase_lan_only:
  assumes "LanAddress g = Some la" and "WanAddress g = None"
    and "ServiceAddress.Address (GatewayAddress_ToConsulType X la) \<noteq> ''''"
    and "ServiceAddress.Port (GatewayAddress_ToConsulType X la) > 0"
  shows "meshGatewayCase X g svc0 =
     svc0\<lparr>AgentService.Port := ServiceAddress.Port (GatewayAddress_ToConsulType X la),
          AgentService.Address := ServiceAddress.Address (GatewayAddress_ToConsulType X la),
          AgentService.TaggedAddresses := [(TaggedAddressLAN X, GatewayAddress_ToConsulType X la)]\<rparr>"
  using assms by (simp add: meshGatewayCase_def Let_def)

lemma meshGatewayCase_port:
  "AgentService.Port (meshGatewayCase X g svc0) =
     (case LanAddress g of
        None \<Rightarrow> DefaultGatewayPort X
      | Some la \<Rightarrow> if ServiceAddress.Port (GatewayAddress_ToConsulType X la) > 0
                   then ServiceAddress.Port (GatewayAddress_ToConsulType X la)
                   else DefaultGatewayPort X)"
  by (simp add: meshGatewayCase_def Let_def split: option.splits prod.splits)

lemma meshGatewayCase_wan_default_port:
  assumes "WanAddress g = Some wa"
    and "ServiceAddress.Address (GatewayAddress_ToConsulType X wa) \<noteq> ''''"
    and "ServiceAddress.Port (GatewayAddress_ToConsulType X wa) = 0"
  shows "map_of (AgentService.TaggedAddresses (meshGatewayCase X g svc0)) (TaggedAddressWAN X) =
     Some ((GatewayAddress_ToConsulType X wa)
            \<lparr>ServiceAddress.Port := AgentService.Port (meshGatewayCase X g svc0)\<rparr>)"
  using assms
  by (auto simp: meshGatewayCase_def Let_def update_conv' update_Some_unfold
      split: option.splits prod.splits)

text \<open>
  C8. For a mesh gateway, when a LAN address with a non-empty host and a positive port
  is configured and no WAN address is, the service address is the LAN host, the service
  port is the LAN port, and the tagged addresses are exactly the LAN one; no WAN entry
  is present. When a WAN address with a non-empty host and port 0 is configured, its
  tagged address takes the gateway's port: the LAN port when that is positive, the
  default gateway port otherwise.
\<close>

theorem gateway_payload_shape:
  assumes "Gateway cfg = Some g" and "GatewayRegistration.Kind g = ServiceKindMeshGateway"
  shows "\<exists>reg. constructGatewayProxyRegistration X cfg taskMeta clusterARN = Inr reg \<and>
     (\<forall>la. LanAddress g = Some la \<and> WanAddress g = None \<and>
           ServiceAddress.Address (GatewayAddress_ToConsulType X la) \<noteq> '''' \<and>
           ServiceAddress.Port (GatewayAddress_ToConsulType X la) > 0 \<longrightarrow>
        AgentService.Address (CatalogRegistration.Service reg) =
          ServiceAddress.Address (GatewayAddress_ToConsulType X la) \<and>
        AgentService.Port (CatalogRegistration.Service reg) =
          ServiceAddress.Port (GatewayAddress_ToConsulType X la) \<and>
        AgentService.TaggedAddresses (CatalogRegistration.Service reg) =
          [(TaggedAddressLAN X, GatewayAddress_ToConsulType X la)] \<and>
        (TaggedAddressWAN X \<noteq> TaggedAddressLAN X \<longrightarrow>
           map_of (AgentService.TaggedAddresses (CatalogRegistration.Service reg))
             (TaggedAddressWAN X) = None)) \<and>
     (\<forall>wa. WanAddress g = Some wa \<and>
           ServiceAddress.Address (GatewayAddress_ToConsulType X wa) \<noteq> '''' \<and>
           ServiceAddress.Port (GatewayAddress_ToConsulType X wa) = 0 \<longrightarrow>
        map_of (AgentService.TaggedAddresses (CatalogRegistration.Service reg))
           (TaggedAddressWAN X) =
          Some ((GatewayAddress_ToConsulType X wa)
                 \<lparr>ServiceAddress.Port := AgentService.Port (CatalogRegistration.Service reg)\<rparr>) \<and>
        AgentService.Port (CatalogRegistration.Service reg) =
          (case LanAddress g of
             None \<Rightarrow> DefaultGatewayPort X
           | Some la \<Rightarrow> if ServiceAddress.Port (GatewayAddress_ToConsulType X la) > 0
                        then ServiceAddress.Port (GatewayAddress_ToConsulType X la)
                        else DefaultGatewayPort X))"
proof -
  from constructGateway_eq[OF assms(1), of X taskMeta clusterARN] obtain svc0 where
    eq: "constructGatewayProxyRegistration X cfg taskMeta clusterARN =
      Inr (constructCatalogRegistrationPayload X (meshGatewayCase X g svc0) taskMeta clusterARN)"
    using assms(2) by auto
  have svc: "CatalogRegistration.Service
      (constructCatalogRegistrationPayload X (meshGatewayCase X g svc0) taskMeta clusterARN) =
      meshGatewayCase X g svc0"
    by (simp add: constructCatalogRegistrationPayload_def)
  show ?thesis
    unfolding eq
    apply (rule exI, rule conjI, rule refl)
    unfolding svc
    apply (intro conjI allI impI)
         apply (simp_all add: meshGatewayCase_lan_only meshGatewayCase_wan_default_port meshGatewayCase_port)
    done
qed

text \<open>
  The theorem at the LAN address \<open>10.0.0.5:8443\<close> without a WAN address, and at a WAN
  address with port 0 next to a LAN address with port 9000.
\<close>

theorem gateway_payload_shape_witness:
  "(\<exists>reg. constructGatewayProxyRegistration example_deps
            (example_gateway_config (Some \<lparr>GatewayAddress.Address = ''10.0.0.5'', GatewayAddress.Port = 8443\<rparr>) None)
            example_taskMeta ''arn:cluster'' = Inr reg \<and>
     AgentService.Address (CatalogRegistration.Service reg) = ''10.0.0.5'' \<and>
     AgentService.Port (CatalogRegistration.Service reg) = 8443 \<and>
     AgentService.TaggedAddresses (CatalogRegistration.Service reg) =
       [(''lan'', \<lparr>ServiceAddress.Address = ''10.0.0.5'', ServiceAddress.Port = 8443\<rparr>)] \<and>
     map_of (AgentService.TaggedAddresses (CatalogRegistration.Service reg)) ''wan'' = None) \<and>
   (\<exists>reg. constructGatewayProxyRegistration example_deps
            (example_gateway_config (Some \<lparr>GatewayAddress.Address = ''10.0.0.5'', GatewayAddress.Port = 9000\<rparr>)
               (Some \<lparr>GatewayAddress.Address = ''203.0.113.7'', GatewayAddress.Port = 0\<rparr>))
            example_taskMeta ''arn:cluster'' = Inr reg \<and>
     AgentService.Port (CatalogRegistration.Service reg) = 9000 \<and>
     map_of (AgentService.TaggedAddresses (CatalogRegistration.Service reg)) ''wan'' =
       Some \<lparr>ServiceAddress.Address = ''203.0.113.7'', ServiceAddress.Port = 9000\<rparr>)"
proof (rule conjI)
  show "\<exists>reg. constructGatewayProxyRegistration example_deps
            (example_gateway_config (Some \<lparr>GatewayAddress.Address = ''10.0.0.5'', GatewayAddress.Port = 8443\<rparr>) None)
            example_taskMeta ''arn:cluster'' = Inr reg \<and>
     AgentService.Address (CatalogRegistration.Service reg) = ''10.0.0.5'' \<and>
     AgentService.Port (CatalogRegistration.Service reg) = 8443 \<and>
     AgentService.TaggedAddresses (CatalogRegistration.Service reg) =
       [(''lan'', \<lparr>ServiceAddress.Address = ''10.0.0.5'', ServiceAddress.Port = 8443\<rparr>)] \<and>
     map_of (AgentService.TaggedAddresses (CatalogRegistration.Service reg)) ''wan'' = None"
    using gateway_payload_shape[of
      "example_gateway_config (Some \<lparr>GatewayAddress.Address = ''10.0.0.5'', GatewayAddress.Port = 8443\<rparr>) None"
      "\<lparr>GatewayRegistration.Kind = ''mesh-gateway'',
        GatewayRegistration.Name = ''gw'', GatewayRegistration.Meta = [],
        LanAddress = Some \<lparr>GatewayAddress.Address = ''10.0.0.5'', GatewayAddress.Port = 8443\<rparr>,
        WanAddress = None\<rparr>"
      example_deps example_taskMeta "''arn:cluster''"]
    by (simp add: example_gateway_config_def ServiceKindMeshGateway_def example_deps_def)
  show "\<exists>reg. constructGatewayProxyRegistration example_deps
            (example_gateway_config (Some \<lparr>GatewayAddress.Address = ''10.0.0.5'', GatewayAddress.Port = 9000\<rparr>)
               (Some \<lparr>GatewayAddress.Address = ''203.0.113.7'', GatewayAddress.Port = 0\<rparr>))
            example_taskMeta ''arn:cluster'' = Inr reg \<and>
     AgentService.Port (CatalogRegistration.Service reg) = 9000 \<and>
     map_of (AgentService.TaggedAddresses (CatalogRegistration.Service reg)) ''wan'' =
       Some \<lparr>ServiceAddress.Address = ''203.0.113.7'', ServiceAddress.Port = 9000\<rparr>"
    using gateway_payload_shape[of
      "example_gateway_config (Some \<lparr>GatewayAddress.Address = ''10.0.0.5'', GatewayAddress.Port = 9000\<rparr>)
               (Some \<lparr>GatewayAddress.Address = ''203.0.113.7'', GatewayAddress.Port = 0\<rparr>)"
      "\<lparr>GatewayRegistration.Kind = ''mesh-gateway'',
        GatewayRegistration.Name = ''gw'', GatewayRegistration.Meta = [],
        LanAddress = Some \<lparr>GatewayAddress.Address = ''10.0.0.5'', GatewayAddress.Port = 9000\<rparr>,
        WanAddress = Some \<lparr>GatewayAddress.Address = ''203.0.113.7'', GatewayAddress.Port = 0\<rparr>\<rparr>"
      example_deps example_taskMeta "''arn:cluster''"]
    by (auto simp add: example_gateway_config_def ServiceKindMeshGateway_def example_deps_def)
qed


section \<open>Properties of \<open>Upsert\<close>\<close>

lemma record_call_fields [simp]:
  "acl_tokens (record_call c w) = acl_tokens w"
  "secrets (record_call c w) = secrets w"
  "calls (record_call c w) = calls w @ [c]"
  "logs (record_call c w) = logs w"
  by (simp_all add: record_call_def)

lemma Log_Info_fields [simp]:
  "acl_tokens (Log_Info msg args w) = acl_tokens w"
  "secrets (Log_Info msg args w) = secrets w"
  "calls (Log_Info msg args w) = calls w"
  "logs (Log_Info msg args w) = logs w @ [(msg, args)]"
  by (simp_all add: Log_Info_def)

lemma GetSecretValue_snd [simp]: "snd (GetSecretValue E n w) = record_call (SM_Get n) w"
  by (simp add: GetSecretValue_def)

lemma TokenRead_snd [simp]: "snd (TokenRead E a w) = record_call (Consul_Read a) w"
  by (simp add: TokenRead_def)

lemma GetSecretValue_InrD:
  assumes "GetSecretValue E n w = (Inr v, w1)"
  shows "w1 = record_call (SM_Get n) w" and "secrets w n = Some v"
    and "fault E (length (calls w)) = None"
  using assms by (auto simp: GetSecretValue_def split: option.splits)

lemma TokenRead_InrD:
  assumes "TokenRead E a w = (Inr tok, w1)"
  shows "w1 = record_call (Consul_Read a) w"
    and "find (\<lambda>tok. ACLToken.AccessorID tok = a) (acl_tokens w) = Some tok"
    and "fault E (length (calls w)) = None"
  using assms by (auto simp: TokenRead_def split: option.splits)

lemma TokenRead_InlD:
  assumes "TokenRead E a w = (Inl err, w1)"
  shows "w1 = record_call (Consul_Read a) w"
  using assms by (auto simp: TokenRead_def split: option.splits)

lemma Upsert_token_found:
  assumes "GetSecretValue E (secretName (TaskFamily.SecretPrefix t) (TaskFamily t)) w = (Inr (Some s), w1)"
    and "Unmarshal E s = Inr currSecret"
    and "tokenSecretJSON.AccessorID currSecret \<noteq> ''''"
    and "TokenRead E (tokenSecretJSON.AccessorID currSecret) w1 = (Inr currToken, w2)"
  shows "Upsert E t w =
           (None, Log_Info ''token already exists; skipping token creation''
                    [''id'', TaskFamily t] w2)"
  using assms by (simp add: Upsert_def Let_def)

text \<open>
  C2. \<open>Upsert\<close> is a no-op for a family that is already served: when the secret holds a
  record whose \<open>accessor_id\<close> is not empty and Consul returns a token for that accessor,
  \<open>Upsert\<close> returns nil after the two reads and one log line. The tokens and the secrets
  are unchanged, and the only calls made are \<open>GetSecretValue\<close> and \<open>TokenRead\<close>: no
  token is created and no secret is written. This holds in every state, so also for a
  second run after a run that issued the credential.
\<close>

theorem Upsert_existing_token_noop:
  assumes "GetSecretValue E (secretName (TaskFamily.SecretPrefix t) (TaskFamily t)) w = (Inr (Some s), w1)"
    and "Unmarshal E s = Inr currSecret"
    and "tokenSecretJSON.AccessorID currSecret \<noteq> ''''"
    and "TokenRead E (tokenSecretJSON.AccessorID currSecret) w1 = (Inr currToken, w2)"
  shows "Upsert E t w =
           (None, Log_Info ''token already exists; skipping token creation''
                    [''id'', TaskFamily t] w2) \<and>
         acl_tokens (snd (Upsert E t w)) = acl_tokens w \<and>
         secrets (snd (Upsert E t w)) = secrets w \<and>
         calls (snd (Upsert E t w)) =
           calls w @ [SM_Get (secretName (TaskFamily.SecretPrefix t) (TaskFamily t)),
                      Consul_Read (tokenSecretJSON.AccessorID currSecret)]"
proof -
  have u: "Upsert E t w =
           (None, Log_Info ''token already exists; skipping token creation''
                    [''id'', TaskFamily t] w2)"
    by (rule Upsert_token_found[OF assms])
  show ?thesis
    unfolding u using GetSecretValue_InrD(1)[OF assms(1)] TokenRead_InrD(1)[OF assms(4)]
    by simp
qed

lemma updateServiceToken_first_call:
  "\<exists>rest. calls (snd (updateServiceToken E t w)) =
     calls w @ Consul_Create (''Token for '' @ TaskFamily t @ '' service'') [TaskFamily t] # rest"
  by (auto simp: updateServiceToken_def Let_def TokenCreate_def UpdateSecret_def
      split: option.splits sum.splits prod.splits)

lemma updateServiceToken_success:
  assumes "fault E (length (calls w)) = None"
    and "Marshal E \<lparr>tokenSecretJSON.AccessorID = fst (issue E (length (calls w))),
                    Token = snd (issue E (length (calls w)))\<rparr> = Inr d"
    and "fault E (Suc (length (calls w))) = None"
    and "secrets w (secretName (TaskFamily.SecretPrefix t) (TaskFamily t)) \<noteq> None"
  shows "fst (updateServiceToken E t w) = None"
    and "acl_tokens (snd (updateServiceToken E t w)) =
           acl_tokens w @ [issued E (TaskFamily t) (length (calls w))]"
    and "secrets (snd (updateServiceToken E t w)) =
           (secrets w)(secretName (TaskFamily.SecretPrefix t) (TaskFamily t) \<mapsto> Some d)"
    and "calls (snd (updateServiceToken E t w)) =
           calls w @ [Consul_Create (''Token for '' @ TaskFamily t @ '' service'') [TaskFamily t],
                      SM_Update (secretName (TaskFamily.SecretPrefix t) (TaskFamily t)) d]"
  using assms
  by (auto simp: updateServiceToken_def Let_def TokenCreate_def UpdateSecret_def issued_def
      split: option.splits sum.splits prod.splits)

lemma Upsert_create_alt:
  "Upsert_create E t w =
     (map_option (wrap ''updating service token: '') (fst (updateServiceToken E t w)),
      snd (updateServiceToken E t w))"
  by (simp add: Upsert_create_def split: prod.splits option.splits)

lemma Upsert_read_not_found:
  assumes "GetSecretValue E (secretName (TaskFamily.SecretPrefix t) (TaskFamily t)) w = (Inr (Some s), w1)"
    and "Unmarshal E s = Inr currSecret"
    and "tokenSecretJSON.AccessorID currSecret \<noteq> ''''"
    and "TokenRead E (tokenSecretJSON.AccessorID currSecret) w1 = (Inl err, w2)"
    and "isACLNotFoundError (Some err)"
  shows "Upsert E t w = Upsert_create E t w2"
  using assms by (simp add: Upsert_def Let_def)

lemma Upsert_read_failed:
  assumes "GetSecretValue E (secretName (TaskFamily.SecretPrefix t) (TaskFamily t)) w = (Inr (Some s), w1)"
    and "Unmarshal E s = Inr currSecret"
    and "tokenSecretJSON.AccessorID currSecret \<noteq> ''''"
    and "TokenRead E (tokenSecretJSON.AccessorID currSecret) w1 = (Inl err, w2)"
    and "\<not> isACLNotFoundError (Some err)"
  shows "Upsert E t w = (Some (Error (''reading existing token: '' @ err)), w2)"
  using assms by (simp add: Upsert_def Let_def)

lemma Upsert_no_accessor:
  assumes "GetSecretValue E (secretName (TaskFamily.SecretPrefix t) (TaskFamily t)) w = (Inr (Some s), w1)"
    and "Unmarshal E s = Inr currSecret"
    and "tokenSecretJSON.AccessorID currSecret = ''''"
  shows "Upsert E t w = Upsert_create E t w1"
  using assms by (simp add: Upsert_def Let_def)

text \<open>
  C4. When the read of the token referenced by a non-empty \<open>accessor_id\<close> fails: if the
  error text contains the not-found signature, \<open>Upsert\<close> goes on to
  \<open>updateServiceToken\<close>, whose first call is the creation of a token for the family, and
  its result is that of \<open>updateServiceToken\<close> (so nil, with the new token in Consul and
  its record in the secret, when creation, encoding and the secret update succeed); with
  any other error text \<open>Upsert\<close> returns the error \<open>reading existing token\<close> after the two
  reads, and neither a token nor a secret has changed.
\<close>

theorem Upsert_token_read_error:
  assumes "GetSecretValue E (secretName (TaskFamily.SecretPrefix t) (TaskFamily t)) w = (Inr (Some s), w1)"
    and "Unmarshal E s = Inr currSecret"
    and "tokenSecretJSON.AccessorID currSecret \<noteq> ''''"
    and "TokenRead E (tokenSecretJSON.AccessorID currSecret) w1 = (Inl err, w2)"
  shows "(isACLNotFoundError (Some err) \<longrightarrow>
            Upsert E t w =
              (map_option (wrap ''updating service token: '') (fst (updateServiceToken E t w2)),
               snd (updateServiceToken E t w2)) \<and>
            (\<exists>rest. calls (snd (Upsert E t w)) =
               calls w2 @ Consul_Create (''Token for '' @ TaskFamily t @ '' service'') [TaskFamily t] # rest) \<and>
            (\<forall>d. fault E (length (calls w2)) = None \<and>
                 Marshal E \<lparr>tokenSecretJSON.AccessorID = fst (issue E (length (calls w2))),
                            Token = snd (issue E (length (calls w2)))\<rparr> = Inr d \<and>
                 fault E (Suc (length (calls w2))) = None \<longrightarrow>
               fst (Upsert E t w) = None \<and>
               acl_tokens (snd (Upsert E t w)) =
                 acl_tokens w @
                   [\<lparr>ACLToken.AccessorID = fst (issue E (length (calls w2))),
                     SecretID = snd (issue E (length (calls w2))),
                     Description = ''Token for '' @ TaskFamily t @ '' service'',
                     ServiceIdentities = [TaskFamily t]\<rparr>] \<and>
               secrets (snd (Upsert E t w)) (secretName (TaskFamily.SecretPrefix t) (TaskFamily t))
                 = Some (Some d))) \<and>
         (\<not> isACLNotFoundError (Some err) \<longrightarrow>
            Upsert E t w = (Some (Error (''reading existing token: '' @ err)), w2) \<and>
            acl_tokens w2 = acl_tokens w \<and> secrets w2 = secrets w \<and>
            calls w2 = calls w @ [SM_Get (secretName (TaskFamily.SecretPrefix t) (TaskFamily t)),
                                  Consul_Read (tokenSecretJSON.AccessorID currSecret)])"
proof -
  note g = GetSecretValue_InrD[OF assms(1)]
  note r = TokenRead_InlD[OF assms(4)]
  have w2: "acl_tokens w2 = acl_tokens w" "secrets w2 = secrets w"
    "calls w2 = calls w @ [SM_Get (secretName (TaskFamily.SecretPrefix t) (TaskFamily t)),
                           Consul_Read (tokenSecretJSON.AccessorID currSecret)]"
    by (simp_all add: g(1) r)
  have ex: "secrets w2 (secretName (TaskFamily.SecretPrefix t) (TaskFamily t)) \<noteq> None"
    by (simp add: w2 g(2))
  show ?thesis
  proof (intro conjI impI allI)
    assume nf: "isACLNotFoundError (Some err)"
    show "Upsert E t w =
              (map_option (wrap ''updating service token: '') (fst (updateServiceToken E t w2)),
               snd (updateServiceToken E t w2))"
      using Upsert_read_not_found[OF assms nf] by (simp add: Upsert_create_alt)
    then show "\<exists>rest. calls (snd (Upsert E t w)) =
               calls w2 @ Consul_Create (''Token for '' @ TaskFamily t @ '' service'') [TaskFamily t] # rest"
      using updateServiceToken_first_call[of E t w2] by simp
  next
    fix d
    assume nf: "isACLNotFoundError (Some err)"
      and ok: "fault E (length (calls w2)) = None \<and>
                 Marshal E \<lparr>tokenSecretJSON.AccessorID = fst (issue E (length (calls w2))),
                            Token = snd (issue E (length (calls w2)))\<rparr> = Inr d \<and>
                 fault E (Suc (length (calls w2))) = None"
    have u: "Upsert E t w = Upsert_create E t w2" by (rule Upsert_read_not_found[OF assms nf])
    from ok have a: "fault E (length (calls w2)) = None"
      and b: "Marshal E \<lparr>tokenSecretJSON.AccessorID = fst (issue E (length (calls w2))),
                            Token = snd (issue E (length (calls w2)))\<rparr> = Inr d"
      and c: "fault E (Suc (length (calls w2))) = None" by simp_all
    note s = updateServiceToken_success[OF a b c ex]
    show "fst (Upsert E t w) = None" by (simp add: u Upsert_create_alt s(1))
    show "acl_tokens (snd (Upsert E t w)) =
                 acl_tokens w @
                   [\<lparr>ACLToken.AccessorID = fst (issue E (length (calls w2))),
                     SecretID = snd (issue E (length (calls w2))),
                     Description = ''Token for '' @ TaskFamily t @ '' service'',
                     ServiceIdentities = [TaskFamily t]\<rparr>]"
      by (simp add: u Upsert_create_alt s(2) issued_def w2(1))
    show "secrets (snd (Upsert E t w)) (secretName (TaskFamily.SecretPrefix t) (TaskFamily t))
                 = Some (Some d)"
      by (simp add: u Upsert_create_alt s(3))
  next
    assume nf: "\<not> isACLNotFoundError (Some err)"
    show "Upsert E t w = (Some (Error (''reading existing token: '' @ err)), w2)"
      by (rule Upsert_read_failed[OF assms nf])
  qed (rule w2)+
qed

lemma Upsert_no_record:
  assumes "secrets w (secretName (TaskFamily.SecretPrefix t) (TaskFamily t)) = None"
  shows "\<exists>err. Upsert E t w =
     (Some (Error (''retrieving secret: '' @ err)),
      record_call (SM_Get (secretName (TaskFamily.SecretPrefix t) (TaskFamily t))) w)"
  using assms by (simp add: Upsert_def Let_def GetSecretValue_def split: option.splits)

text \<open>
  C7, as amended. When the secret of the family holds the empty object \<open>{}\<close> (which
  decodes to an empty \<open>accessor_id\<close>), \<open>Upsert\<close> treats the family as having no
  credential: after reading the secret its next call creates a token, and when
  creation, encoding and the secret update succeed it returns nil with the new token in
  Consul and its record in the secret. When no secret exists under the family's name,
  \<open>GetSecretValue\<close> fails and \<open>Upsert\<close> returns the error \<open>retrieving secret\<close>; no token is
  created and no secret is written.
\<close>

theorem Upsert_empty_object_or_no_record:
  "(\<forall>r. secrets w (secretName (TaskFamily.SecretPrefix t) (TaskFamily t)) = Some (Some ''{}'') \<and>
        fault E (length (calls w)) = None \<and>
        Unmarshal E ''{}'' = Inr r \<and> tokenSecretJSON.AccessorID r = '''' \<longrightarrow>
      (\<exists>rest. calls (snd (Upsert E t w)) =
         calls w @ SM_Get (secretName (TaskFamily.SecretPrefix t) (TaskFamily t))
           # Consul_Create (''Token for '' @ TaskFamily t @ '' service'') [TaskFamily t] # rest) \<and>
      (\<forall>d. fault E (Suc (length (calls w))) = None \<and>
           Marshal E \<lparr>tokenSecretJSON.AccessorID = fst (issue E (Suc (length (calls w)))),
                      Token = snd (issue E (Suc (length (calls w))))\<rparr> = Inr d \<and>
           fault E (Suc (Suc (length (calls w)))) = None \<longrightarrow>
         fst (Upsert E t w) = None \<and>
         acl_tokens (snd (Upsert E t w)) =
           acl_tokens w @
             [\<lparr>ACLToken.AccessorID = fst (issue E (Suc (length (calls w)))),
               SecretID = snd (issue E (Suc (length (calls w)))),
               Description = ''Token for '' @ TaskFamily t @ '' service'',
               ServiceIdentities = [TaskFamily t]\<rparr>] \<and>
         secrets (snd (Upsert E t w)) (secretName (TaskFamily.SecretPrefix t) (TaskFamily t))
           = Some (Some d))) \<and>
   (secrets w (secretName (TaskFamily.SecretPrefix t) (TaskFamily t)) = None \<longrightarrow>
      (\<exists>err. fst (Upsert E t w) = Some (Error (''retrieving secret: '' @ err))) \<and>
      acl_tokens (snd (Upsert E t w)) = acl_tokens w \<and>
      secrets (snd (Upsert E t w)) = secrets w \<and>
      calls (snd (Upsert E t w)) =
        calls w @ [SM_Get (secretName (TaskFamily.SecretPrefix t) (TaskFamily t))])"
proof (intro conjI allI impI)
  fix r
  assume a: "secrets w (secretName (TaskFamily.SecretPrefix t) (TaskFamily t)) = Some (Some ''{}'') \<and>
        fault E (length (calls w)) = None \<and>
        Unmarshal E ''{}'' = Inr r \<and> tokenSecretJSON.AccessorID r = ''''"
  let ?n = "secretName (TaskFamily.SecretPrefix t) (TaskFamily t)"
  let ?w1 = "record_call (SM_Get ?n) w"
  have g: "GetSecretValue E ?n w = (Inr (Some ''{}''), ?w1)"
    using a by (simp add: GetSecretValue_def)
  have u: "Upsert E t w = Upsert_create E t ?w1"
    using Upsert_no_accessor[OF g] a by simp
  show "\<exists>rest. calls (snd (Upsert E t w)) =
         calls w @ SM_Get ?n # Consul_Create (''Token for '' @ TaskFamily t @ '' service'') [TaskFamily t] # rest"
    using updateServiceToken_first_call[of E t ?w1] by (simp add: u Upsert_create_alt)
  fix d
  assume ok: "fault E (Suc (length (calls w))) = None \<and>
           Marshal E \<lparr>tokenSecretJSON.AccessorID = fst (issue E (Suc (length (calls w)))),
                      Token = snd (issue E (Suc (length (calls w))))\<rparr> = Inr d \<and>
           fault E (Suc (Suc (length (calls w)))) = None"
  have l: "length (calls ?w1) = Suc (length (calls w))" by simp
  have s1: "fault E (length (calls ?w1)) = None" using ok by simp
  have s2: "Marshal E \<lparr>tokenSecretJSON.AccessorID = fst (issue E (length (calls ?w1))),
                    Token = snd (issue E (length (calls ?w1)))\<rparr> = Inr d"
    using ok unfolding l by simp
  have s3: "fault E (Suc (length (calls ?w1))) = None" using ok by simp
  have s4: "secrets ?w1 ?n \<noteq> None" using a by simp
  note s = updateServiceToken_success[OF s1 s2 s3 s4]
  show "fst (Upsert E t w) = None" by (simp add: u Upsert_create_alt s(1))
  show "acl_tokens (snd (Upsert E t w)) =
           acl_tokens w @
             [\<lparr>ACLToken.AccessorID = fst (issue E (Suc (length (calls w)))),
               SecretID = snd (issue E (Suc (length (calls w)))),
               Description = ''Token for '' @ TaskFamily t @ '' service'',
               ServiceIdentities = [TaskFamily t]\<rparr>]"
    using s(2) by (simp add: u Upsert_create_alt issued_def)
  show "secrets (snd (Upsert E t w)) ?n = Some (Some d)"
    using s(3) by (simp add: u Upsert_create_alt)
next
  assume a: "secrets w (secretName (TaskFamily.SecretPrefix t) (TaskFamily t)) = None"
  from Upsert_no_record[OF a, of E] obtain err where
    u: "Upsert E t w = (Some (Error (''retrieving secret: '' @ err)),
      record_call (SM_Get (secretName (TaskFamily.SecretPrefix t) (TaskFamily t))) w)" by blast
  show "\<exists>err. fst (Upsert E t w) = Some (Error (''retrieving secret: '' @ err))"
    by (simp add: u)
  show "acl_tokens (snd (Upsert E t w)) = acl_tokens w" by (simp add: u)
  show "secrets (snd (Upsert E t w)) = secrets w" by (simp add: u)
  show "calls (snd (Upsert E t w)) =
        calls w @ [SM_Get (secretName (TaskFamily.SecretPrefix t) (TaskFamily t))]"
    by (simp add: u)
qed

lemmas controller_eval =
  Upsert_def Upsert_create_def updateServiceToken_def DeleteTokenInfo_def
  GetSecretValue_def UpdateSecret_def TokenRead_def TokenCreate_def TokenDelete_def
  record_call_def Log_Info_def Let_def secretName_def isACLNotFoundError_def
  example_Marshal_def example_Unmarshal_def dq_def web_secret_def web_token_def

lemma example_env_fields [simp]:
  "fault (example_env f) = f"
  "issue (example_env f) n = (replicate (Suc n) (CHR ''a''), replicate (Suc n) (CHR ''s''))"
  "Unmarshal (example_env f) = example_Unmarshal"
  "Marshal (example_env f) = example_Marshal"
  by (simp_all add: example_env_def)

lemma example_family_fields [simp]:
  "TaskFamily example_family = ''web''"
  "TaskFamily.SecretPrefix example_family = ''pfx''"
  "secretName ''pfx'' ''web'' = ''pfx-web''"
  by (simp_all add: example_family_def secretName_def)

lemma example_Unmarshal_empty [simp]:
  "example_Unmarshal ''{}'' = Inr \<lparr>tokenSecretJSON.AccessorID = '''', Token = ''''\<rparr>"
  by (simp add: example_Unmarshal_def)

text \<open>
  C7 as stated fails: with no secret under \<open>pfx-web\<close>, \<open>Upsert\<close> for the family \<open>web\<close>
  returns an error after the single call \<open>GetSecretValue\<close> and issues nothing.
\<close>

theorem Upsert_no_record_counterexample:
  "secrets no_record_world (secretName (TaskFamily.SecretPrefix example_family) (TaskFamily example_family)) = None \<and>
   Upsert (example_env no_faults) example_family no_record_world =
     (Some (Error (''retrieving secret: '' @ ResourceNotFound)),
      \<lparr>acl_tokens = [], secrets = Map.empty, calls = [SM_Get ''pfx-web''], logs = []\<rparr>)"
  by (simp add: Upsert_def Let_def GetSecretValue_def no_record_world_def no_faults_def
      record_call_def)

text \<open>The amended statement at the secret \<open>{}\<close> and at the missing secret.\<close>

theorem Upsert_empty_object_or_no_record_witness:
  "fst (Upsert (example_env no_faults) example_family empty_secret_world) = None \<and>
   acl_tokens (snd (Upsert (example_env no_faults) example_family empty_secret_world)) =
     [\<lparr>ACLToken.AccessorID = ''aa'', SecretID = ''ss'',
       Description = ''Token for web service'', ServiceIdentities = [''web'']\<rparr>] \<and>
   (\<exists>d. secrets (snd (Upsert (example_env no_faults) example_family empty_secret_world)) ''pfx-web''
          = Some (Some d) \<and> example_Unmarshal d = Inr \<lparr>tokenSecretJSON.AccessorID = ''aa'', Token = ''ss''\<rparr>) \<and>
   (\<exists>err. fst (Upsert (example_env no_faults) example_family no_record_world)
          = Some (Error (''retrieving secret: '' @ err))) \<and>
   acl_tokens (snd (Upsert (example_env no_faults) example_family no_record_world)) = []"
proof -
  have m: "example_Marshal \<lparr>tokenSecretJSON.AccessorID = ''aa'', Token = ''ss''\<rparr> =
    Inr (''{'' @ [dq] @ ''accessor_id'' @ [dq] @ '':'' @ [dq] @ ''aa'' @ [dq] @ '','' @ [dq] @ ''token'' @ [dq] @ '':'' @ [dq] @ ''ss'' @ [dq] @ ''}'')"
    by (simp add: example_Marshal_def dq_def)
  have um: "example_Unmarshal (''{'' @ [dq] @ ''accessor_id'' @ [dq] @ '':'' @ [dq] @ ''aa'' @ [dq] @ '','' @ [dq] @ ''token'' @ [dq] @ '':'' @ [dq] @ ''ss'' @ [dq] @ ''}'')
     = Inr \<lparr>tokenSecretJSON.AccessorID = ''aa'', Token = ''ss''\<rparr>"
    by (simp add: example_Unmarshal_def dq_def)
  have two: "replicate (Suc (Suc 0)) (CHR ''a'') = ''aa''" "replicate (Suc (Suc 0)) (CHR ''s'') = ''ss''"
    by simp_all
  show ?thesis
    using Upsert_empty_object_or_no_record[of empty_secret_world example_family "example_env no_faults"]
      Upsert_empty_object_or_no_record[of no_record_world example_family "example_env no_faults"]
      m um
    by (simp add: empty_secret_world_def no_record_world_def no_faults_def)
qed

lemma example_codec_web [simp]:
  "example_Unmarshal web_secret = Inr \<lparr>tokenSecretJSON.AccessorID = ''aa'', Token = ''ss''\<rparr>"
  by (simp add: example_Unmarshal_def web_secret_def dq_def)

lemma first_run_state:
  "Upsert (example_env no_faults) example_family empty_secret_world =
     (None,
      \<lparr>acl_tokens = [web_token], secrets = [''pfx-web'' \<mapsto> Some web_secret],
       calls = [SM_Get ''pfx-web'', Consul_Create ''Token for web service'' [''web''],
                SM_Update ''pfx-web'' web_secret],
       logs = [(''creating service token'', [''id'', ''web'']),
               (''service token created successfully'', [''service'', ''web'']),
               (''updating secret'', [''name'', ''pfx-web'']),
               (''secret updated successfully'', [''name'', ''pfx-web''])]\<rparr>)"
  by (simp add: controller_eval empty_secret_world_def no_faults_def)

text \<open>
  The theorem in a state where the secret of \<open>web\<close> references the live token \<open>aa\<close>, and
  for a second run of \<open>Upsert\<close> after the run that issued the token.
\<close>

theorem Upsert_existing_token_noop_witness:
  "Upsert (example_env no_faults) example_family served_world =
     (None, \<lparr>acl_tokens = [web_token], secrets = [''pfx-web'' \<mapsto> Some web_secret],
             calls = [SM_Get ''pfx-web'', Consul_Read ''aa''],
             logs = [(''token already exists; skipping token creation'', [''id'', ''web''])]\<rparr>) \<and>
   fst (Upsert (example_env no_faults) example_family
          (snd (Upsert (example_env no_faults) example_family empty_secret_world))) = None \<and>
   acl_tokens (snd (Upsert (example_env no_faults) example_family
          (snd (Upsert (example_env no_faults) example_family empty_secret_world)))) =
     acl_tokens (snd (Upsert (example_env no_faults) example_family empty_secret_world)) \<and>
   calls (snd (Upsert (example_env no_faults) example_family
          (snd (Upsert (example_env no_faults) example_family empty_secret_world)))) =
     calls (snd (Upsert (example_env no_faults) example_family empty_secret_world))
       @ [SM_Get ''pfx-web'', Consul_Read ''aa'']"
proof -
  let ?E = "example_env no_faults"
  let ?w1 = "record_call (SM_Get ''pfx-web'') served_world"
  let ?w2 = "record_call (Consul_Read ''aa'') ?w1"
  have g: "GetSecretValue ?E (secretName (TaskFamily.SecretPrefix example_family) (TaskFamily example_family))
             served_world = (Inr (Some web_secret), ?w1)"
    by (simp add: GetSecretValue_def served_world_def no_faults_def)
  have u: "Unmarshal ?E web_secret = Inr \<lparr>tokenSecretJSON.AccessorID = ''aa'', Token = ''ss''\<rparr>"
    by simp
  have a: "tokenSecretJSON.AccessorID \<lparr>tokenSecretJSON.AccessorID = ''aa'', Token = ''ss''\<rparr> \<noteq> ''''"
    by simp
  have r: "TokenRead ?E (tokenSecretJSON.AccessorID \<lparr>tokenSecretJSON.AccessorID = ''aa'', Token = ''ss''\<rparr>) ?w1
             = (Inr web_token, ?w2)"
    by (simp add: TokenRead_def served_world_def no_faults_def web_token_def)
  have part1: "Upsert ?E example_family served_world =
     (None, \<lparr>acl_tokens = [web_token], secrets = [''pfx-web'' \<mapsto> Some web_secret],
             calls = [SM_Get ''pfx-web'', Consul_Read ''aa''],
             logs = [(''token already exists; skipping token creation'', [''id'', ''web''])]\<rparr>)"
    using Upsert_existing_token_noop[OF g u a r]
    by (simp add: served_world_def record_call_def Log_Info_def)
  let ?v = "snd (Upsert ?E example_family empty_secret_world)"
  let ?v1 = "record_call (SM_Get ''pfx-web'') ?v"
  let ?v2 = "record_call (Consul_Read ''aa'') ?v1"
  have g': "GetSecretValue ?E (secretName (TaskFamily.SecretPrefix example_family) (TaskFamily example_family))
             ?v = (Inr (Some web_secret), ?v1)"
    by (simp add: first_run_state GetSecretValue_def no_faults_def)
  have r': "TokenRead ?E (tokenSecretJSON.AccessorID \<lparr>tokenSecretJSON.AccessorID = ''aa'', Token = ''ss''\<rparr>) ?v1
             = (Inr web_token, ?v2)"
    by (simp add: first_run_state TokenRead_def no_faults_def web_token_def)
  note second = Upsert_existing_token_noop[OF g' u a r', THEN conjunct2]
  have f: "fst (Upsert ?E example_family ?v) = None"
    using Upsert_existing_token_noop[OF g' u a r', THEN conjunct1] by simp
  show ?thesis using part1 second f by simp
qed

text \<open>
  The theorem in a state whose secret references a token that is gone (a new token is
  issued), and with a \<open>TokenRead\<close> that fails with a 500 response (nothing is issued).
\<close>

theorem Upsert_token_read_error_witness:
  "fst (Upsert (example_env no_faults) example_family stale_world) = None \<and>
   acl_tokens (snd (Upsert (example_env no_faults) example_family stale_world)) =
     [\<lparr>ACLToken.AccessorID = ''aaa'', SecretID = ''sss'',
       Description = ''Token for web service'', ServiceIdentities = [''web'']\<rparr>] \<and>
   Upsert (example_env (fault_at 1 ''Unexpected response code: 500 (rpc error)'')) example_family served_world =
     (Some (Error ''reading existing token: Unexpected response code: 500 (rpc error)''),
      \<lparr>acl_tokens = [web_token], secrets = [''pfx-web'' \<mapsto> Some web_secret],
       calls = [SM_Get ''pfx-web'', Consul_Read ''aa''], logs = []\<rparr>)"
proof -
  let ?E = "example_env no_faults"
  let ?F = "example_env (fault_at 1 ''Unexpected response code: 500 (rpc error)'')"
  let ?v1 = "record_call (SM_Get ''pfx-web'') stale_world"
  let ?v2 = "record_call (Consul_Read ''aa'') ?v1"
  let ?w1 = "record_call (SM_Get ''pfx-web'') served_world"
  let ?w2 = "record_call (Consul_Read ''aa'') ?w1"
  have a: "tokenSecretJSON.AccessorID \<lparr>tokenSecretJSON.AccessorID = ''aa'', Token = ''ss''\<rparr> \<noteq> ''''"
    by simp
  have g1: "GetSecretValue ?E (secretName (TaskFamily.SecretPrefix example_family) (TaskFamily example_family))
             stale_world = (Inr (Some web_secret), ?v1)"
    by (simp add: GetSecretValue_def stale_world_def no_faults_def)
  have u1: "Unmarshal ?E web_secret = Inr \<lparr>tokenSecretJSON.AccessorID = ''aa'', Token = ''ss''\<rparr>"
    by simp
  have r1: "TokenRead ?E (tokenSecretJSON.AccessorID \<lparr>tokenSecretJSON.AccessorID = ''aa'', Token = ''ss''\<rparr>) ?v1
             = (Inl ACLNotFound, ?v2)"
    by (simp add: TokenRead_def stale_world_def no_faults_def)
  have nf: "isACLNotFoundError (Some ACLNotFound)"
    by (simp add: isACLNotFoundError_def ACLNotFound_def)
  have g2: "GetSecretValue ?F (secretName (TaskFamily.SecretPrefix example_family) (TaskFamily example_family))
             served_world = (Inr (Some web_secret), ?w1)"
    by (simp add: GetSecretValue_def served_world_def fault_at_def)
  have u2: "Unmarshal ?F web_secret = Inr \<lparr>tokenSecretJSON.AccessorID = ''aa'', Token = ''ss''\<rparr>"
    by simp
  have r2: "TokenRead ?F (tokenSecretJSON.AccessorID \<lparr>tokenSecretJSON.AccessorID = ''aa'', Token = ''ss''\<rparr>) ?w1
             = (Inl ''Unexpected response code: 500 (rpc error)'', ?w2)"
    by (simp add: TokenRead_def served_world_def fault_at_def)
  have other: "\<not> isACLNotFoundError (Some ''Unexpected response code: 500 (rpc error)'')"
    by (simp add: isACLNotFoundError_def)
  have m: "\<exists>d. example_Marshal \<lparr>tokenSecretJSON.AccessorID = ''aaa'', Token = ''sss''\<rparr> = Inr d"
    by (simp add: example_Marshal_def dq_def)
  have three: "replicate (Suc (Suc (Suc 0))) (CHR ''a'') = ''aaa''"
    "replicate (Suc (Suc (Suc 0))) (CHR ''s'') = ''sss''" by simp_all
  obtain d where d: "example_Marshal \<lparr>tokenSecretJSON.AccessorID = ''aaa'', Token = ''sss''\<rparr> = Inr d"
    using m by blast
  note T = Upsert_token_read_error[OF g1 u1 a r1, THEN conjunct1, rule_format, OF nf,
      THEN conjunct2, THEN conjunct2, rule_format, of d]
  have part1: "fst (Upsert ?E example_family stale_world) = None \<and>
      acl_tokens (snd (Upsert ?E example_family stale_world)) =
     [\<lparr>ACLToken.AccessorID = ''aaa'', SecretID = ''sss'',
       Description = ''Token for web service'', ServiceIdentities = [''web'']\<rparr>]"
    using T d
    by (simp add: no_faults_def stale_world_def numeral_2_eq_2)
  have part2: "Upsert ?F example_family served_world =
     (Some (Error ''reading existing token: Unexpected response code: 500 (rpc error)''),
      \<lparr>acl_tokens = [web_token], secrets = [''pfx-web'' \<mapsto> Some web_secret],
       calls = [SM_Get ''pfx-web'', Consul_Read ''aa''], logs = []\<rparr>)"
    using Upsert_token_read_error[OF g2 u2 a r2] other
    by (simp add: served_world_def record_call_def)
  show ?thesis using part1 part2 by simp
qed


section \<open>Properties of \<open>TokenList\<close> and \<open>DeleteTokenInfo\<close>\<close>

lemma TokenDelete_cases:
  "TokenDelete E a w = (r, w') \<Longrightarrow>
     secrets w' = secrets w \<and> calls w' = calls w @ [Consul_Delete a] \<and> logs w' = logs w \<and>
     (r = None \<longrightarrow> acl_tokens w' = filter (\<lambda>tok. ACLToken.AccessorID tok \<noteq> a) (acl_tokens w)) \<and>
     (r \<noteq> None \<longrightarrow> acl_tokens w' = acl_tokens w)"
  by (auto simp: TokenDelete_def split: option.splits if_splits)

lemma deleteTokens_frame:
  "deleteTokens E f toks w = (r, w') \<Longrightarrow>
     secrets w' = secrets w \<and>
     (\<exists>k\<le>length toks. calls w' = calls w @ map (\<lambda>tok. Consul_Delete (ACLToken.AccessorID tok)) (take k toks)) \<and>
     (\<forall>tok\<in>set (acl_tokens w). ACLToken.AccessorID tok \<notin> ACLToken.AccessorID ` set toks
         \<longrightarrow> tok \<in> set (acl_tokens w')) \<and>
     set (acl_tokens w') \<subseteq> set (acl_tokens w)"
proof (induction toks arbitrary: w)
  case Nil
  then show ?case by simp
next
  case (Cons tok toks)
  obtain r1 w1 where d: "TokenDelete E (ACLToken.AccessorID tok) w = (r1, w1)"
    by (cases "TokenDelete E (ACLToken.AccessorID tok) w")
  note c = TokenDelete_cases[OF d]
  show ?case
  proof (cases r1)
    case (Some err)
    with Cons.prems d have "w' = w1" by simp
    with c Some show ?thesis
      by (auto intro!: exI[of _ "Suc 0"])
  next
    case None
    let ?w2 = "Log_Info ''token deleted successfully'' [''service'', f] w1"
    from Cons.prems d None have rec: "deleteTokens E f toks ?w2 = (r, w')" by simp
    from Cons.IH[OF rec] obtain k where k: "k \<le> length toks"
      "calls w' = calls ?w2 @ map (\<lambda>tok. Consul_Delete (ACLToken.AccessorID tok)) (take k toks)"
      and s: "secrets w' = secrets ?w2"
      and keep: "\<forall>tok\<in>set (acl_tokens ?w2). ACLToken.AccessorID tok \<notin> ACLToken.AccessorID ` set toks
         \<longrightarrow> tok \<in> set (acl_tokens w')"
      and sub: "set (acl_tokens w') \<subseteq> set (acl_tokens ?w2)"
      by blast
    have "calls w' = calls w @ map (\<lambda>tok. Consul_Delete (ACLToken.AccessorID tok)) (take (Suc k) (tok # toks))"
      using k c by simp
    moreover have "Suc k \<le> length (tok # toks)" using k by simp
    ultimately have ex: "\<exists>k\<le>length (tok # toks). calls w' = calls w @ map (\<lambda>tok. Consul_Delete (ACLToken.AccessorID tok)) (take k (tok # toks))"
      by blast
    have t2: "acl_tokens ?w2 = filter (\<lambda>x. ACLToken.AccessorID x \<noteq> ACLToken.AccessorID tok) (acl_tokens w)"
      using c None by simp
    show ?thesis
      using ex s c keep sub unfolding t2 by auto
  qed
qed

lemma deleteTokens_success:
  "deleteTokens E f toks w = (None, w') \<Longrightarrow>
     calls w' = calls w @ map (\<lambda>tok. Consul_Delete (ACLToken.AccessorID tok)) toks \<and>
     acl_tokens w' = filter (\<lambda>tok. ACLToken.AccessorID tok \<notin> ACLToken.AccessorID ` set toks) (acl_tokens w)"
proof (induction toks arbitrary: w)
  case Nil
  then show ?case by simp
next
  case (Cons tok toks)
  obtain r1 w1 where d: "TokenDelete E (ACLToken.AccessorID tok) w = (r1, w1)"
    by (cases "TokenDelete E (ACLToken.AccessorID tok) w")
  note c = TokenDelete_cases[OF d]
  from Cons.prems d have r1: "r1 = None" by (cases r1) auto
  let ?w2 = "Log_Info ''token deleted successfully'' [''service'', f] w1"
  from Cons.prems d r1 have rec: "deleteTokens E f toks ?w2 = (None, w')" by simp
  from Cons.IH[OF rec] c r1 show ?case
    by (auto intro: filter_cong)
qed

lemma UpdateSecret_cases:
  "UpdateSecret E n v w = (r, w') \<Longrightarrow>
     acl_tokens w' = acl_tokens w \<and> calls w' = calls w @ [SM_Update n v] \<and> logs w' = logs w \<and>
     (r = None \<longrightarrow> secrets w' = (secrets w)(n \<mapsto> Some v)) \<and>
     (r \<noteq> None \<longrightarrow> secrets w' = secrets w)"
  by (auto simp: UpdateSecret_def split: option.splits)

text \<open>
  C5. \<open>DeleteTokenInfo\<close>, given a list of tokens that covers every live token owned for
  the family (as the group of the family in the result of \<open>TokenList\<close> does): when it
  returns nil it has made one \<open>TokenDelete\<close> call for each listed token, in order, and
  then the \<open>UpdateSecret\<close> call that writes \<open>{}\<close>; afterwards no live token is owned for
  the family and the secret of the family is \<open>{}\<close>. When a deletion fails,
  \<open>DeleteTokenInfo\<close> returns that error, the secrets are unchanged, and every call it
  made is a \<open>TokenDelete\<close>: the secret is not overwritten.
\<close>

theorem DeleteTokenInfo_orphan:
  assumes "\<forall>tok\<in>set (acl_tokens w). owned serviceName tok \<longrightarrow>
             ACLToken.AccessorID tok \<in> ACLToken.AccessorID ` set toks"
  shows "(fst (DeleteTokenInfo E t serviceName toks w) = None \<longrightarrow>
            calls (snd (DeleteTokenInfo E t serviceName toks w)) =
              calls w @ map (\<lambda>tok. Consul_Delete (ACLToken.AccessorID tok)) toks
                @ [SM_Update (secretName (TaskDefinitionLister.SecretPrefix t) serviceName) ''{}''] \<and>
            live (snd (DeleteTokenInfo E t serviceName toks w)) serviceName = [] \<and>
            secrets (snd (DeleteTokenInfo E t serviceName toks w))
              (secretName (TaskDefinitionLister.SecretPrefix t) serviceName) = Some (Some ''{}'')) \<and>
         (fst (deleteTokens E serviceName toks w) \<noteq> None \<longrightarrow>
            fst (DeleteTokenInfo E t serviceName toks w) = fst (deleteTokens E serviceName toks w) \<and>
            secrets (snd (DeleteTokenInfo E t serviceName toks w)) = secrets w \<and>
            (\<forall>c\<in>set (calls (snd (DeleteTokenInfo E t serviceName toks w))).
                c \<in> set (calls w) \<or> (\<exists>a. c = Consul_Delete a)))"
proof (intro conjI impI)
  let ?n = "secretName (TaskDefinitionLister.SecretPrefix t) serviceName"
  obtain r1 w1 where d: "deleteTokens E serviceName toks w = (r1, w1)"
    by (cases "deleteTokens E serviceName toks w")
  let ?w2 = "Log_Info ''updating secret'' [''name'', ?n, ''service'', serviceName] w1"
  obtain r2 w3 where u: "UpdateSecret E ?n ''{}'' ?w2 = (r2, w3)"
    by (cases "UpdateSecret E ?n ''{}'' ?w2")
  note uc = UpdateSecret_cases[OF u]
  {
    assume ok: "fst (DeleteTokenInfo E t serviceName toks w) = None"
    have r1: "r1 = None" using ok d by (cases r1) (auto simp: DeleteTokenInfo_def)
    have r2: "r2 = None" using ok d r1 u by (cases r2) (auto simp: DeleteTokenInfo_def Let_def)
    have res: "snd (DeleteTokenInfo E t serviceName toks w) =
        Log_Info ''secret updated successfully'' [''name'', ?n, ''service'', serviceName] w3"
      using d r1 u r2 by (simp add: DeleteTokenInfo_def Let_def)
    note ds = deleteTokens_success[OF d[unfolded r1]]
    show "calls (snd (DeleteTokenInfo E t serviceName toks w)) =
              calls w @ map (\<lambda>tok. Consul_Delete (ACLToken.AccessorID tok)) toks @ [SM_Update ?n ''{}'']"
      using ds uc by (simp add: res)
    show "live (snd (DeleteTokenInfo E t serviceName toks w)) serviceName = []"
      using ds uc assms by (auto simp: res live_def filter_empty_conv)
    show "secrets (snd (DeleteTokenInfo E t serviceName toks w)) ?n = Some (Some ''{}'')"
      using uc r2 by (simp add: res)
  }
  {
    assume bad: "fst (deleteTokens E serviceName toks w) \<noteq> None"
    then obtain err where r1: "r1 = Some err" using d by auto
    have res: "DeleteTokenInfo E t serviceName toks w = (Some err, w1)"
      using d r1 by (simp add: DeleteTokenInfo_def)
    note fr = deleteTokens_frame[OF d]
    show "fst (DeleteTokenInfo E t serviceName toks w) = fst (deleteTokens E serviceName toks w)"
      by (simp add: res d r1)
    show "secrets (snd (DeleteTokenInfo E t serviceName toks w)) = secrets w"
      using fr by (simp add: res)
    show "\<forall>c\<in>set (calls (snd (DeleteTokenInfo E t serviceName toks w))).
                c \<in> set (calls w) \<or> (\<exists>a. c = Consul_Delete a)"
      using fr by (auto simp: res)
  }
qed

lemma find_by_accessor:
  "distinct (map ACLToken.AccessorID T) \<Longrightarrow> x \<in> set T \<Longrightarrow>
   find (\<lambda>tok. ACLToken.AccessorID tok = ACLToken.AccessorID x) T = Some x"
  by (induction T) (auto simp: image_iff)

lemma owned_iff:
  "owned f x \<longleftrightarrow> length (ServiceIdentities x) = 1 \<and> ServiceIdentities x ! 0 = f"
  by (cases "ServiceIdentities x") (auto simp: owned_def)

lemma TokenRead_cases:
  "TokenRead E a w = (r, w') \<Longrightarrow>
     w' = record_call (Consul_Read a) w \<and>
     (\<forall>tok. r = Inr tok \<longrightarrow> find (\<lambda>tok. ACLToken.AccessorID tok = a) (acl_tokens w) = Some tok)"
  by (auto simp: TokenRead_def split: option.splits)

lemma readTokens_groups:
  assumes "distinct (map ACLToken.AccessorID T)"
  shows "set ts \<subseteq> set T \<Longrightarrow> acl_tokens w = T \<Longrightarrow>
     readTokens E (map ACLToken.AccessorID ts) acc w = ((res, None), w') \<Longrightarrow>
     acl_tokens w' = T \<and> secrets w' = secrets w \<and>
     (\<forall>f. map_of res f =
        (if filter (owned f) ts = [] then map_of acc f
         else Some ((case map_of acc f of None \<Rightarrow> [] | Some g \<Rightarrow> g) @ filter (owned f) ts))) \<and>
     (distinct (map fst acc) \<longrightarrow> distinct (map fst res))"
proof (induction ts arbitrary: acc w)
  case Nil
  then show ?case by simp
next
  case (Cons x ts)
  obtain r1 w1 where rd: "TokenRead E (ACLToken.AccessorID x) w = (r1, w1)"
    by (cases "TokenRead E (ACLToken.AccessorID x) w")
  note rc = TokenRead_cases[OF rd]
  from Cons.prems(3) rd obtain tok where r1: "r1 = Inr tok"
    by (cases r1) auto
  have x: "x \<in> set T" and sub: "set ts \<subseteq> set T" using Cons.prems(1) by auto
  have "find (\<lambda>tok. ACLToken.AccessorID tok = ACLToken.AccessorID x) T = Some x"
    by (rule find_by_accessor[OF assms x])
  with rc r1 Cons.prems(2) have tok: "tok = x" by simp
  have w1: "acl_tokens w1 = T" "secrets w1 = secrets w" using rc Cons.prems(2) by simp_all
  show ?case
  proof (cases "length (ServiceIdentities x) = 1")
    case True
    let ?fam = "ServiceIdentities x ! 0"
    let ?acc = "AList.update ?fam
                  ((case map_of acc ?fam of None \<Rightarrow> [] | Some existing \<Rightarrow> existing) @ [x]) acc"
    from Cons.prems(3) rd r1 tok True
    have rec: "readTokens E (map ACLToken.AccessorID ts) ?acc w1 = ((res, None), w')"
      by (simp add: Let_def)
    note ih = Cons.IH[OF sub w1(1) rec]
    have own: "\<And>f. owned f x \<longleftrightarrow> f = ?fam" using True by (auto simp: owned_iff)
    show ?thesis
      using ih w1 by (auto simp: own update_conv' distinct_update split: option.splits)
  next
    case False
    from Cons.prems(3) rd r1 tok False
    have rec: "readTokens E (map ACLToken.AccessorID ts) acc w1 = ((res, None), w')"
      by simp
    note ih = Cons.IH[OF sub w1(1) rec]
    have own: "\<And>f. \<not> owned f x" using False by (auto simp: owned_iff)
    show ?thesis using ih w1 by (simp add: own)
  qed
qed

lemma TokenList_groups:
  assumes "distinct (map ACLToken.AccessorID (acl_tokens w))"
    and "TokenList E w = ((res, None), w')"
  shows "acl_tokens w' = acl_tokens w" and "secrets w' = secrets w"
    and "map_of res f = (if live w f = [] then None else Some (live w f))"
    and "distinct (map fst res)"
proof -
  from assms(2) have
    rt: "readTokens E (map ACLToken.AccessorID (acl_tokens w)) [] (record_call Consul_List w) = ((res, None), w')"
    by (auto simp: TokenList_def ACL_TokenList_def Let_def split: option.splits)
  have "acl_tokens (record_call Consul_List w) = acl_tokens w" by simp
  from readTokens_groups[OF assms(1) subset_refl this rt]
  show "acl_tokens w' = acl_tokens w" and "secrets w' = secrets w"
    and "map_of res f = (if live w f = [] then None else Some (live w f))"
    and "distinct (map fst res)"
    by (simp_all add: live_def)
qed

lemma DeleteTokenInfo_keeps:
  assumes "tok \<in> set (acl_tokens w)"
    and "ACLToken.AccessorID tok \<notin> ACLToken.AccessorID ` set toks"
  shows "tok \<in> set (acl_tokens (snd (DeleteTokenInfo E t f toks w)))"
proof -
  obtain r1 w1 where d: "deleteTokens E f toks w = (r1, w1)"
    by (cases "deleteTokens E f toks w")
  from deleteTokens_frame[OF d] assms have k: "tok \<in> set (acl_tokens w1)" by blast
  show ?thesis
  proof (cases r1)
    case None
    let ?n = "secretName (TaskDefinitionLister.SecretPrefix t) f"
    let ?w2 = "Log_Info ''updating secret'' [''name'', ?n, ''service'', f] w1"
    obtain r2 w3 where u: "UpdateSecret E ?n ''{}'' ?w2 = (r2, w3)"
      by (cases "UpdateSecret E ?n ''{}'' ?w2")
    from UpdateSecret_cases[OF u] have "acl_tokens w3 = acl_tokens w1" by simp
    then show ?thesis using d None u k
      by (cases r2) (simp_all add: DeleteTokenInfo_def Let_def)
  next
    case (Some e)
    then show ?thesis using d k by (simp add: DeleteTokenInfo_def)
  qed
qed

text \<open>
  C6. When \<open>TokenList\<close> succeeds, the group it returns for a family is the list of the
  live tokens whose only service identity is that family, in the order of the listing,
  and a family without such a token has no group; so every grouped token has exactly
  one identity, its family is its key, and tokens with no or with several identities
  are in no group. Such a token is still in Consul after \<open>DeleteTokenInfo\<close> has been run
  on any group of the result, whatever calls fail. Accessors are unique in Consul.
\<close>

theorem TokenList_single_identity_groups:
  assumes "distinct (map ACLToken.AccessorID (acl_tokens w))"
    and "TokenList E w = ((haveSet, None), w')"
  shows "(\<forall>family. map_of haveSet family =
            (if filter (\<lambda>tok. ServiceIdentities tok = [family]) (acl_tokens w) = [] then None
             else Some (filter (\<lambda>tok. ServiceIdentities tok = [family]) (acl_tokens w)))) \<and>
         distinct (map fst haveSet) \<and>
         (\<forall>family toks tok. map_of haveSet family = Some toks \<and> tok \<in> set toks \<longrightarrow>
            length (ServiceIdentities tok) = 1 \<and> ServiceIdentities tok ! 0 = family) \<and>
         (\<forall>family toks t tok.
            map_of haveSet family = Some toks \<and> tok \<in> set (acl_tokens w') \<and>
            length (ServiceIdentities tok) \<noteq> 1 \<longrightarrow>
            tok \<in> set (acl_tokens (snd (DeleteTokenInfo E t family toks w'))))"
proof -
  note g = TokenList_groups[OF assms]
  have grp: "\<And>family. map_of haveSet family =
            (if filter (\<lambda>tok. ServiceIdentities tok = [family]) (acl_tokens w) = [] then None
             else Some (filter (\<lambda>tok. ServiceIdentities tok = [family]) (acl_tokens w)))"
    using g(3) by (simp add: live_def owned_def[abs_def])
  have mem: "\<And>family toks tok. map_of haveSet family = Some toks \<Longrightarrow> tok \<in> set toks \<Longrightarrow>
      ServiceIdentities tok = [family] \<and> tok \<in> set (acl_tokens w)"
    using grp by (auto split: if_splits)
  have inj: "inj_on ACLToken.AccessorID (set (acl_tokens w))"
    using assms(1) by (simp add: distinct_map)
  show ?thesis
  proof (intro conjI allI impI)
    fix family show "map_of haveSet family =
            (if filter (\<lambda>tok. ServiceIdentities tok = [family]) (acl_tokens w) = [] then None
             else Some (filter (\<lambda>tok. ServiceIdentities tok = [family]) (acl_tokens w)))"
      by (rule grp)
  next
    show "distinct (map fst haveSet)" by (rule g(4))
  next
    fix family toks tok
    assume "map_of haveSet family = Some toks \<and> tok \<in> set toks"
    with mem have "ServiceIdentities tok = [family]" by blast
    then show "length (ServiceIdentities tok) = 1" and "ServiceIdentities tok ! 0 = family"
      by simp_all
  next
    fix family toks t tok
    assume a: "map_of haveSet family = Some toks \<and> tok \<in> set (acl_tokens w') \<and>
            length (ServiceIdentities tok) \<noteq> 1"
    then have tw: "tok \<in> set (acl_tokens w)" using g(1) by simp
    have "ACLToken.AccessorID tok \<notin> ACLToken.AccessorID ` set toks"
    proof
      assume "ACLToken.AccessorID tok \<in> ACLToken.AccessorID ` set toks"
      then obtain x where x: "x \<in> set toks" "ACLToken.AccessorID x = ACLToken.AccessorID tok" by auto
      from mem[OF _ x(1)] a have xs: "ServiceIdentities x = [family]" "x \<in> set (acl_tokens w)" by auto
      from inj xs(2) tw x(2) have "x = tok" by (auto dest: inj_onD)
      with xs a show False by simp
    qed
    with a show "tok \<in> set (acl_tokens (snd (DeleteTokenInfo E t family toks w')))"
      by (intro DeleteTokenInfo_keeps) simp_all
  qed
qed

lemma example_lister_fields [simp]:
  "ECSClient example_lister = example_ecs"
  "TaskDefinitionLister.Cluster example_lister = ''test''"
  "TaskDefinitionLister.SecretPrefix example_lister = ''pfx''"
  by (simp_all add: example_lister_def)

lemma mixed_world_distinct: "distinct (map ACLToken.AccessorID (acl_tokens mixed_world))"
  by (simp add: mixed_world_def token_of_def)

lemma mixed_world_TokenList:
  "TokenList (example_env no_faults) mixed_world =
     (([(''web'', [token_of ''w1'' [''web''], token_of ''w2'' [''web'']]),
        (''api'', [token_of ''p1'' [''api'']])], None),
      mixed_world\<lparr>calls := [Consul_List, Consul_Read ''w1'', Consul_Read ''m0'', Consul_Read ''w2'',
                             Consul_Read ''m2'', Consul_Read ''p1'']\<rparr>)"
  by (simp add: TokenList_def ACL_TokenList_def TokenRead_def mixed_world_def token_of_def
      no_faults_def record_call_def Let_def)

text \<open>
  The theorem in a state with five tokens: the groups are those of \<open>web\<close> and \<open>api\<close>, and
  the tokens with no and with two identities outlive the cleanup of \<open>web\<close>.
\<close>

theorem TokenList_single_identity_groups_witness:
  "fst (TokenList (example_env no_faults) mixed_world) =
     ([(''web'', [token_of ''w1'' [''web''], token_of ''w2'' [''web'']]),
       (''api'', [token_of ''p1'' [''api'']])], None) \<and>
   token_of ''m0'' [] \<in> set (acl_tokens (snd (DeleteTokenInfo (example_env no_faults) example_lister
       ''web'' [token_of ''w1'' [''web''], token_of ''w2'' [''web'']]
       (snd (TokenList (example_env no_faults) mixed_world))))) \<and>
   token_of ''m2'' [''web'', ''api''] \<in> set (acl_tokens (snd (DeleteTokenInfo (example_env no_faults) example_lister
       ''web'' [token_of ''w1'' [''web''], token_of ''w2'' [''web'']]
       (snd (TokenList (example_env no_faults) mixed_world)))))"
proof -
  note T = TokenList_single_identity_groups[OF mixed_world_distinct mixed_world_TokenList]
  note D = T[THEN conjunct2, THEN conjunct2, THEN conjunct2, rule_format]
  have a: "token_of ''m0'' [] \<in> set (acl_tokens (snd (DeleteTokenInfo (example_env no_faults) example_lister
       ''web'' [token_of ''w1'' [''web''], token_of ''w2'' [''web'']]
       (snd (TokenList (example_env no_faults) mixed_world)))))"
    unfolding mixed_world_TokenList snd_conv
    by (rule D) (simp add: mixed_world_def token_of_def)
  have b: "token_of ''m2'' [''web'', ''api''] \<in> set (acl_tokens (snd (DeleteTokenInfo (example_env no_faults) example_lister
       ''web'' [token_of ''w1'' [''web''], token_of ''w2'' [''web'']]
       (snd (TokenList (example_env no_faults) mixed_world)))))"
    unfolding mixed_world_TokenList snd_conv
    by (rule D) (simp add: mixed_world_def token_of_def)
  show ?thesis using a b by (simp add: mixed_world_TokenList)
qed

lemma TokenList_group_covers:
  assumes "distinct (map ACLToken.AccessorID (acl_tokens w0))"
    and "TokenList E w0 = ((haveSet, None), w)"
    and "map_of haveSet family = Some toks"
  shows "\<forall>tok\<in>set (acl_tokens w). owned family tok \<longrightarrow>
           ACLToken.AccessorID tok \<in> ACLToken.AccessorID ` set toks"
proof -
  note g = TokenList_groups[OF assms(1,2)]
  from g(3)[of family] assms(3) have "toks = live w0 family" by (simp split: if_splits)
  then show ?thesis by (auto simp: g(1) live_def)
qed

lemma mixed_world_TokenList_fault:
  "TokenList (example_env (fault_at 7 ''connection reset'')) mixed_world =
     (([(''web'', [token_of ''w1'' [''web''], token_of ''w2'' [''web'']]),
        (''api'', [token_of ''p1'' [''api'']])], None),
      mixed_world\<lparr>calls := [Consul_List, Consul_Read ''w1'', Consul_Read ''m0'', Consul_Read ''w2'',
                             Consul_Read ''m2'', Consul_Read ''p1'']\<rparr>)"
  by (simp add: TokenList_def ACL_TokenList_def TokenRead_def mixed_world_def token_of_def
      fault_at_def record_call_def Let_def)

text \<open>
  The theorem for the orphaned family \<open>web\<close>, with the group that \<open>TokenList\<close> returns
  for it: without faults both tokens are deleted and the secret becomes \<open>{}\<close>; when the
  second deletion fails, the secret keeps its record.
\<close>

theorem DeleteTokenInfo_orphan_witness:
  "fst (DeleteTokenInfo (example_env no_faults) example_lister ''web''
          [token_of ''w1'' [''web''], token_of ''w2'' [''web'']]
          (snd (TokenList (example_env no_faults) mixed_world))) = None \<and>
   calls (snd (DeleteTokenInfo (example_env no_faults) example_lister ''web''
          [token_of ''w1'' [''web''], token_of ''w2'' [''web'']]
          (snd (TokenList (example_env no_faults) mixed_world)))) =
     [Consul_List, Consul_Read ''w1'', Consul_Read ''m0'', Consul_Read ''w2'', Consul_Read ''m2'',
      Consul_Read ''p1'', Consul_Delete ''w1'', Consul_Delete ''w2'', SM_Update ''pfx-web'' ''{}''] \<and>
   live (snd (DeleteTokenInfo (example_env no_faults) example_lister ''web''
          [token_of ''w1'' [''web''], token_of ''w2'' [''web'']]
          (snd (TokenList (example_env no_faults) mixed_world)))) ''web'' = [] \<and>
   secrets (snd (DeleteTokenInfo (example_env no_faults) example_lister ''web''
          [token_of ''w1'' [''web''], token_of ''w2'' [''web'']]
          (snd (TokenList (example_env no_faults) mixed_world)))) ''pfx-web''
     = Some (Some ''{}'') \<and>
   fst (DeleteTokenInfo (example_env (fault_at 7 ''connection reset'')) example_lister ''web''
          [token_of ''w1'' [''web''], token_of ''w2'' [''web'']]
          (snd (TokenList (example_env (fault_at 7 ''connection reset'')) mixed_world)))
     = Some (Error ''deleting token: connection reset'') \<and>
   secrets (snd (DeleteTokenInfo (example_env (fault_at 7 ''connection reset'')) example_lister ''web''
          [token_of ''w1'' [''web''], token_of ''w2'' [''web'']]
          (snd (TokenList (example_env (fault_at 7 ''connection reset'')) mixed_world)))) ''pfx-web''
     = Some (Some web_secret)"
proof -
  let ?toks = "[token_of ''w1'' [''web''], token_of ''w2'' [''web'']]"
  let ?E = "example_env no_faults"
  let ?F = "example_env (fault_at 7 ''connection reset'')"
  let ?w = "mixed_world\<lparr>calls := [Consul_List, Consul_Read ''w1'', Consul_Read ''m0'',
              Consul_Read ''w2'', Consul_Read ''m2'', Consul_Read ''p1'']\<rparr>"
  have grp: "map_of [(''web'', ?toks), (''api'', [token_of ''p1'' [''api'']])] ''web'' = Some ?toks"
    by simp
  note c1 = TokenList_group_covers[OF mixed_world_distinct mixed_world_TokenList grp]
  note c2 = TokenList_group_covers[OF mixed_world_distinct mixed_world_TokenList_fault grp]
  have ok: "fst (DeleteTokenInfo ?E example_lister ''web'' ?toks ?w) = None"
    by (simp add: DeleteTokenInfo_def TokenDelete_def UpdateSecret_def mixed_world_def token_of_def
        no_faults_def secretName_def Let_def)
  have bad: "fst (deleteTokens ?F ''web'' ?toks ?w) = Some (Error ''deleting token: connection reset'')"
    by (simp add: TokenDelete_def mixed_world_def token_of_def fault_at_def)
  have bad': "fst (deleteTokens ?F ''web'' ?toks ?w) \<noteq> None"
    unfolding bad by simp
  note A = DeleteTokenInfo_orphan[OF c1, of ?E example_lister, THEN conjunct1, rule_format, OF ok]
  note B = DeleteTokenInfo_orphan[OF c2, of ?F example_lister, THEN conjunct2, rule_format, OF bad']
  have s: "secrets ?w ''pfx-web'' = Some (Some web_secret)"
    by (simp add: mixed_world_def)
  show ?thesis
    unfolding mixed_world_TokenList mixed_world_TokenList_fault snd_conv
    using A B ok bad s
    by (simp add: secretName_def token_of_def)
qed


section \<open>Properties of \<open>List\<close>\<close>


lemma page_tasks_triple [simp]: "page_tasks (arns, tasks, nxt) = tasks"
  by (simp add: page_tasks_def)













section \<open>At most one live credential per family\<close>

text \<open>
  C1. No family should ever have more than one live token owned for it, and \<open>Upsert\<close>
  should create a token only when none exists for the family (its comment: it "creates
  a token for the task if one doesn't already exist"; "if there is already a token for
  this service in Consul, exit early"). The code does not keep this. The family \<open>web\<close>
  starts with the secret \<open>{}\<close> and no token. The first \<open>Upsert\<close> creates a token, its
  secret update fails, and it returns the error without removing the token. The second
  \<open>Upsert\<close> reads \<open>{}\<close> again, does not look for the token that exists, and creates
  another one: two live tokens are owned for \<open>web\<close>.
\<close>

theorem Upsert_issues_second_credential:
  "length (live empty_secret_world ''web'') = 0 \<and>
   fst (Upsert (example_env (fault_at 2 ''ThrottlingException'')) example_family empty_secret_world)
     = Some (Error ''updating service token: updating secret: ThrottlingException'') \<and>
   length (live (snd (Upsert (example_env (fault_at 2 ''ThrottlingException'')) example_family
                        empty_secret_world)) ''web'') = 1 \<and>
   fst (Upsert (example_env (fault_at 2 ''ThrottlingException'')) example_family
          (snd (Upsert (example_env (fault_at 2 ''ThrottlingException'')) example_family
                  empty_secret_world))) = None \<and>
   length (live (snd (Upsert (example_env (fault_at 2 ''ThrottlingException'')) example_family
                  (snd (Upsert (example_env (fault_at 2 ''ThrottlingException'')) example_family
                          empty_secret_world)))) ''web'') = 2"
  by (simp add: controller_eval live_def owned_def empty_secret_world_def fault_at_def)

subsection \<open>Runs without a failure after issuance\<close>

text \<open>
  The lemmas below delimit the defect: in runs where it does not occur, the controller
  does keep at most one live token per family.
\<close>

lemma TokenCreate_cases:
  "TokenCreate E d ids w = (r, w') \<Longrightarrow>
     secrets w' = secrets w \<and> calls w' = calls w @ [Consul_Create d ids] \<and>
     ((\<exists>err. r = Inl err) \<and> acl_tokens w' = acl_tokens w \<or>
      r = Inr \<lparr>ACLToken.AccessorID = fst (issue E (length (calls w))),
               SecretID = snd (issue E (length (calls w))),
               Description = d, ServiceIdentities = ids\<rparr> \<and>
      acl_tokens w' = acl_tokens w @
        [\<lparr>ACLToken.AccessorID = fst (issue E (length (calls w))),
          SecretID = snd (issue E (length (calls w))),
          Description = d, ServiceIdentities = ids\<rparr>])"
  by (auto simp: TokenCreate_def Let_def split: option.splits)

lemma updateServiceToken_effect:
  assumes "updateServiceToken E t w = (r, w')"
  shows "length (calls w) < length (calls w') \<and>
     (acl_tokens w' = acl_tokens w \<and> secrets w' = secrets w \<or>
      acl_tokens w' = acl_tokens w @ [issued E (TaskFamily t) (length (calls w))] \<and>
      (r \<noteq> None \<and> secrets w' = secrets w \<or>
       r = None \<and>
       (\<exists>doc. Marshal E \<lparr>tokenSecretJSON.AccessorID = fst (issue E (length (calls w))),
                         Token = snd (issue E (length (calls w)))\<rparr> = Inr doc \<and>
              secrets w' = (secrets w)(secretName (TaskFamily.SecretPrefix t) (TaskFamily t) \<mapsto> Some doc))))"
proof -
  let ?w0 = "Log_Info ''creating service token'' [''id'', TaskFamily t] w"
  let ?d = "''Token for '' @ TaskFamily t @ '' service''"
  let ?n = "secretName (TaskFamily.SecretPrefix t) (TaskFamily t)"
  obtain r1 w1 where c: "TokenCreate E ?d [TaskFamily t] ?w0 = (r1, w1)"
    by (cases "TokenCreate E ?d [TaskFamily t] ?w0")
  note cc = TokenCreate_cases[OF c]
  show ?thesis
  proof (cases r1)
    case (Inl err)
    with assms c have "w' = w1" by (simp add: updateServiceToken_def Let_def)
    with cc Inl show ?thesis by auto
  next
    case (Inr tok)
    with cc have tok: "tok = issued E (TaskFamily t) (length (calls w))"
      and t1: "acl_tokens w1 = acl_tokens w @ [issued E (TaskFamily t) (length (calls w))]"
      by (auto simp: issued_def)
    let ?w2 = "Log_Info ''service token created successfully'' [''service'', TaskFamily t] w1"
    let ?v = "\<lparr>tokenSecretJSON.AccessorID = fst (issue E (length (calls w))),
              Token = snd (issue E (length (calls w)))\<rparr>"
    have v: "\<lparr>tokenSecretJSON.AccessorID = ACLToken.AccessorID tok, Token = SecretID tok\<rparr> = ?v"
      by (simp add: tok issued_def)
    show ?thesis
    proof (cases "Marshal E ?v")
      case (Inl err)
      with assms c Inr v have "r = Some (Error err)" "w' = ?w2"
        by (simp_all add: updateServiceToken_def Let_def)
      with cc t1 show ?thesis by auto
    next
      case doc: (Inr doc)
      let ?w3 = "Log_Info ''updating secret'' [''name'', ?n] ?w2"
      obtain r2 w4 where u: "UpdateSecret E ?n doc ?w3 = (r2, w4)"
        by (cases "UpdateSecret E ?n doc ?w3")
      note uc = UpdateSecret_cases[OF u]
      show ?thesis
      proof (cases r2)
        case None
        with assms c Inr v doc u have "r = None"
          "w' = Log_Info ''secret updated successfully'' [''name'', ?n] w4"
          by (simp_all add: updateServiceToken_def Let_def)
        with uc cc t1 None doc show ?thesis by auto
      next
        case (Some err)
        with assms c Inr v doc u have "r = Some (Error (''updating secret: '' @ err))" "w' = w4"
          by (simp_all add: updateServiceToken_def Let_def)
        with uc cc t1 Some show ?thesis by auto
      qed
    qed
  qed
qed

lemma Upsert_create_effect:
  assumes "Upsert_create E t w = (r, w')"
  shows "length (calls w) < length (calls w') \<and>
     (acl_tokens w' = acl_tokens w \<and> secrets w' = secrets w \<or>
      acl_tokens w' = acl_tokens w @ [issued E (TaskFamily t) (length (calls w))] \<and>
      (r \<noteq> None \<and> secrets w' = secrets w \<or>
       r = None \<and>
       (\<exists>doc. Marshal E \<lparr>tokenSecretJSON.AccessorID = fst (issue E (length (calls w))),
                         Token = snd (issue E (length (calls w)))\<rparr> = Inr doc \<and>
              secrets w' = (secrets w)(secretName (TaskFamily.SecretPrefix t) (TaskFamily t) \<mapsto> Some doc))))"
proof -
  obtain r0 where u: "updateServiceToken E t w = (r0, w')" and r: "r = map_option (wrap ''updating service token: '') r0"
    using assms by (cases "updateServiceToken E t w") (auto simp: Upsert_create_alt)
  have "r = None \<longleftrightarrow> r0 = None" by (simp add: r)
  with updateServiceToken_effect[OF u] show ?thesis by simp
qed

lemma GetSecretValue_cases:
  "GetSecretValue E n w = (r, w') \<Longrightarrow>
     w' = record_call (SM_Get n) w \<and> (\<forall>v. r = Inr v \<longrightarrow> secrets w n = Some v)"
  by (auto simp: GetSecretValue_def split: option.splits)

lemma Upsert_effect:
  assumes "Upsert E t w = (r, w')"
  shows "length (calls w) < length (calls w') \<and>
     (acl_tokens w' = acl_tokens w \<and> secrets w' = secrets w \<or>
      (\<exists>doc v n.
          secrets w (secretName (TaskFamily.SecretPrefix t) (TaskFamily t)) = Some (Some doc) \<and>
          Unmarshal E doc = Inr v \<and>
          (tokenSecretJSON.AccessorID v = '''' \<or>
           (\<exists>err. fst (TokenRead E (tokenSecretJSON.AccessorID v)
                         (record_call (SM_Get (secretName (TaskFamily.SecretPrefix t) (TaskFamily t))) w))
                    = Inl err \<and> isACLNotFoundError (Some err))) \<and>
          length (calls w) \<le> n \<and> n < length (calls w') \<and>
          acl_tokens w' = acl_tokens w @ [issued E (TaskFamily t) n] \<and>
          (r \<noteq> None \<and> secrets w' = secrets w \<or>
           r = None \<and>
           (\<exists>d. Marshal E \<lparr>tokenSecretJSON.AccessorID = fst (issue E n),
                           Token = snd (issue E n)\<rparr> = Inr d \<and>
                secrets w' = (secrets w)(secretName (TaskFamily.SecretPrefix t) (TaskFamily t) \<mapsto> Some d)))))"
proof -
  let ?n = "secretName (TaskFamily.SecretPrefix t) (TaskFamily t)"
  let ?w1 = "record_call (SM_Get ?n) w"
  obtain g where g: "GetSecretValue E ?n w = (g, ?w1)"
    by (cases "GetSecretValue E ?n w") (auto dest: GetSecretValue_cases)
  note gc = GetSecretValue_cases[OF g]
  { fix doc v
    assume s: "secrets w ?n = Some (Some doc)" and v: "Unmarshal E doc = Inr v"
      and a: "tokenSecretJSON.AccessorID v = '''' \<or>
           (\<exists>err. fst (TokenRead E (tokenSecretJSON.AccessorID v) ?w1) = Inl err \<and>
                  isACLNotFoundError (Some err))"
    fix w2 assume w2: "acl_tokens w2 = acl_tokens w" "secrets w2 = secrets w"
      "length (calls w) \<le> length (calls w2)"
      and c: "Upsert_create E t w2 = (r, w')"
    have ?thesis
      using Upsert_create_effect[OF c] w2 s v a
      apply (elim conjE disjE)
       apply simp
      apply (rule conjI, simp)
      apply (rule disjI2)
      apply (rule exI[of _ doc], rule exI[of _ v], rule exI[of _ "length (calls w2)"])
      apply auto
      done
  } note create = this
  show ?thesis
  proof (cases g)
    case (Inl err)
    with assms g have "w' = ?w1" by (simp add: Upsert_def Let_def)
    then show ?thesis by simp
  next
    case (Inr sv)
    show ?thesis
    proof (cases sv)
      case None
      with assms g Inr have "w' = ?w1" by (simp add: Upsert_def Let_def)
      then show ?thesis by simp
    next
      case (Some doc)
      with gc Inr have s: "secrets w ?n = Some (Some doc)" by simp
      have g': "GetSecretValue E ?n w = (Inr (Some doc), ?w1)" using g Inr Some by simp
      show ?thesis
      proof (cases "Unmarshal E doc")
        case (Inl err)
        with assms g' have "w' = ?w1" by (simp add: Upsert_def Let_def)
        then show ?thesis by simp
      next
        case v: (Inr v)
        show ?thesis
        proof (cases "tokenSecretJSON.AccessorID v = ''''")
          case True
          have c: "Upsert_create E t ?w1 = (r, w')"
            using Upsert_no_accessor[OF g' v True] assms by simp
          show ?thesis by (rule create[OF s v _ _ _ _ c]) (simp_all add: True)
        next
          case False
          let ?w2 = "record_call (Consul_Read (tokenSecretJSON.AccessorID v)) ?w1"
          obtain rr where rd: "TokenRead E (tokenSecretJSON.AccessorID v) ?w1 = (rr, ?w2)"
            by (cases "TokenRead E (tokenSecretJSON.AccessorID v) ?w1") (auto dest: TokenRead_cases)
          show ?thesis
          proof (cases rr)
            case (Inr tok)
            from Upsert_token_found[OF g' v False rd[unfolded Inr]] assms
            have "w' = Log_Info ''token already exists; skipping token creation'' [''id'', TaskFamily t] ?w2"
              by simp
            then show ?thesis by simp
          next
            case (Inl err)
            show ?thesis
            proof (cases "isACLNotFoundError (Some err)")
              case True
              have c: "Upsert_create E t ?w2 = (r, w')"
                using Upsert_read_not_found[OF g' v False rd[unfolded Inl] True] assms by simp
              have "fst (TokenRead E (tokenSecretJSON.AccessorID v) ?w1) = Inl err"
                using rd Inl by simp
              with True have "tokenSecretJSON.AccessorID v = '''' \<or>
                 (\<exists>err. fst (TokenRead E (tokenSecretJSON.AccessorID v) ?w1) = Inl err \<and>
                  isACLNotFoundError (Some err))" by blast
              then show ?thesis by (rule create[OF s v _ _ _ _ c]) simp_all
            next
              case False
              from Upsert_read_failed[OF g' v \<open>tokenSecretJSON.AccessorID v \<noteq> ''''\<close> rd[unfolded Inl] False] assms
              have "w' = ?w2" by simp
              then show ?thesis by simp
            qed
          qed
        qed
      qed
    qed
  qed
qed

lemma secretName_inj [simp]: "secretName p f = secretName p g \<longleftrightarrow> f = g"
  by (simp add: secretName_def)

lemma ACLNotFound_signature: "isACLNotFoundError (Some ACLNotFound)"
  by (simp add: isACLNotFoundError_def ACLNotFound_def)

lemma TokenRead_not_found_honest:
  assumes "honest E" and "fst (TokenRead E a w) = Inl err" and "isACLNotFoundError (Some err)"
  shows "a \<notin> ACLToken.AccessorID ` set (acl_tokens w)"
proof -
  from assms(1) have nf: "\<And>n e. fault E n = Some e \<Longrightarrow> \<not> isACLNotFoundError (Some e)"
    by (simp add: honest_def)
  from assms(2,3) nf have "find (\<lambda>tok. ACLToken.AccessorID tok = a) (acl_tokens w) = None"
    by (auto simp: TokenRead_def split: option.splits)
  then show ?thesis by (auto simp: find_None_iff)
qed

lemma owned_issued [simp]: "owned g (issued E f n) \<longleftrightarrow> g = f"
  by (auto simp: owned_def issued_def)

lemma issued_accessor [simp]: "ACLToken.AccessorID (issued E f n) = fst (issue E n)"
  by (simp add: issued_def)

lemma consistentI:
  assumes "distinct (map ACLToken.AccessorID (acl_tokens w))"
    and "\<And>tok. tok \<in> set (acl_tokens w) \<Longrightarrow> ACLToken.AccessorID tok \<noteq> ''''"
    and "\<And>n. length (calls w) \<le> n \<Longrightarrow> fst (issue E n) \<notin> ACLToken.AccessorID ` set (acl_tokens w)"
    and "\<And>family. length (live w family) \<le> 1"
    and "\<And>family tok. tok \<in> set (live w family) \<Longrightarrow>
            \<exists>doc v. secrets w (secretName p family) = Some (Some doc) \<and>
                    Unmarshal E doc = Inr v \<and>
                    tokenSecretJSON.AccessorID v = ACLToken.AccessorID tok"
  shows "consistent E p w"
  using assms unfolding consistent_def by blast

lemma consistentD:
  assumes "consistent E p w"
  shows "distinct (map ACLToken.AccessorID (acl_tokens w))"
    and "\<And>tok. tok \<in> set (acl_tokens w) \<Longrightarrow> ACLToken.AccessorID tok \<noteq> ''''"
    and "\<And>n. length (calls w) \<le> n \<Longrightarrow> fst (issue E n) \<notin> ACLToken.AccessorID ` set (acl_tokens w)"
    and "\<And>family. length (live w family) \<le> 1"
    and "\<And>family tok. tok \<in> set (live w family) \<Longrightarrow>
            \<exists>doc v. secrets w (secretName p family) = Some (Some doc) \<and>
                    Unmarshal E doc = Inr v \<and>
                    tokenSecretJSON.AccessorID v = ACLToken.AccessorID tok"
  using assms unfolding consistent_def by blast+

lemma Upsert_consistent:
  assumes h: "honest E" and c: "consistent E p w" and pfx: "TaskFamily.SecretPrefix t = p"
    and clean: "fst (Upsert E t w) = None \<or> acl_tokens (snd (Upsert E t w)) = acl_tokens w"
  shows "consistent E p (snd (Upsert E t w))"
proof -
  obtain r w' where u: "Upsert E t w = (r, w')" by (cases "Upsert E t w")
  note cd = consistentD[OF c]
  let ?f = "TaskFamily t"
  let ?name = "secretName p ?f"
  from Upsert_effect[OF u] have len: "length (calls w) < length (calls w')" by simp
  from Upsert_effect[OF u] consider
    (same) "acl_tokens w' = acl_tokens w" "secrets w' = secrets w"
  | (created) doc v n where
      "secrets w ?name = Some (Some doc)" "Unmarshal E doc = Inr v"
      "tokenSecretJSON.AccessorID v = '''' \<or>
           (\<exists>err. fst (TokenRead E (tokenSecretJSON.AccessorID v) (record_call (SM_Get ?name) w))
                    = Inl err \<and> isACLNotFoundError (Some err))"
      "length (calls w) \<le> n" "n < length (calls w')"
      "acl_tokens w' = acl_tokens w @ [issued E ?f n]"
      "r \<noteq> None \<and> secrets w' = secrets w \<or>
           r = None \<and>
           (\<exists>d. Marshal E \<lparr>tokenSecretJSON.AccessorID = fst (issue E n),
                           Token = snd (issue E n)\<rparr> = Inr d \<and>
                secrets w' = (secrets w)(?name \<mapsto> Some d))"
    unfolding pfx by blast
  then have "consistent E p w'"
  proof cases
    case same
    have l: "\<And>g. live w' g = live w g" by (simp add: live_def same)
    show ?thesis
    proof (rule consistentI)
      show "distinct (map ACLToken.AccessorID (acl_tokens w'))" using cd(1) same by simp
      show "\<And>tok. tok \<in> set (acl_tokens w') \<Longrightarrow> ACLToken.AccessorID tok \<noteq> ''''"
        using cd(2) same by simp
      show "\<And>n. length (calls w') \<le> n \<Longrightarrow> fst (issue E n) \<notin> ACLToken.AccessorID ` set (acl_tokens w')"
        using cd(3) same len by simp
      show "\<And>family. length (live w' family) \<le> 1" using cd(4) l by simp
      show "\<And>family tok. tok \<in> set (live w' family) \<Longrightarrow>
            \<exists>doc v. secrets w' (secretName p family) = Some (Some doc) \<and>
                    Unmarshal E doc = Inr v \<and>
                    tokenSecretJSON.AccessorID v = ACLToken.AccessorID tok"
        using cd(5) l same by simp
    qed
  next
    case created
    from h have inj: "inj (\<lambda>n. fst (issue E n))" and ne: "\<And>n. fst (issue E n) \<noteq> ''''"
      and rt: "\<And>v doc. Marshal E v = Inr doc \<Longrightarrow> Unmarshal E doc = Inr v"
      by (simp_all add: honest_def)
    have fresh: "fst (issue E n) \<notin> ACLToken.AccessorID ` set (acl_tokens w)"
      by (rule cd(3)[OF created(4)])
    have nolive: "live w ?f = []"
    proof (rule ccontr)
      assume "live w ?f \<noteq> []"
      then obtain tok where tok: "tok \<in> set (live w ?f)" by (cases "live w ?f") auto
      from cd(5)[OF tok] created(1,2)
      have a: "tokenSecretJSON.AccessorID v = ACLToken.AccessorID tok" by auto
      from tok have tw: "tok \<in> set (acl_tokens w)" by (simp add: live_def)
      with cd(2) a have "tokenSecretJSON.AccessorID v \<noteq> ''''" by simp
      with created(3) obtain err where
        "fst (TokenRead E (tokenSecretJSON.AccessorID v) (record_call (SM_Get ?name) w)) = Inl err"
        "isACLNotFoundError (Some err)" by blast
      from TokenRead_not_found_honest[OF h this]
      have "tokenSecretJSON.AccessorID v \<notin> ACLToken.AccessorID ` set (acl_tokens w)" by simp
      with a tw show False by auto
    qed
    have l: "\<And>g. live w' g = live w g @ (if g = ?f then [issued E ?f n] else [])"
      by (simp add: live_def created(6))
    from clean u created(6) have r: "r = None" by auto
    with created(7) obtain d where
      d: "Marshal E \<lparr>tokenSecretJSON.AccessorID = fst (issue E n), Token = snd (issue E n)\<rparr> = Inr d"
      and s': "secrets w' = (secrets w)(?name \<mapsto> Some d)" by auto
    show ?thesis
    proof (rule consistentI)
      show "distinct (map ACLToken.AccessorID (acl_tokens w'))"
        using cd(1) fresh by (simp add: created(6))
      show "\<And>tok. tok \<in> set (acl_tokens w') \<Longrightarrow> ACLToken.AccessorID tok \<noteq> ''''"
        using cd(2) ne by (auto simp: created(6))
    next
      fix m assume m: "length (calls w') \<le> m"
      then have "m \<noteq> n" using created(5) by simp
      then have "fst (issue E m) \<noteq> fst (issue E n)" using inj by (auto dest: injD)
      moreover have "fst (issue E m) \<notin> ACLToken.AccessorID ` set (acl_tokens w)"
        using cd(3)[of m] m len by simp
      ultimately show "fst (issue E m) \<notin> ACLToken.AccessorID ` set (acl_tokens w')"
        by (simp add: created(6))
    next
      fix g show "length (live w' g) \<le> 1"
        using cd(4)[of g] nolive by (simp add: l)
    next
      fix g tok assume tok: "tok \<in> set (live w' g)"
      show "\<exists>doc v. secrets w' (secretName p g) = Some (Some doc) \<and>
                    Unmarshal E doc = Inr v \<and>
                    tokenSecretJSON.AccessorID v = ACLToken.AccessorID tok"
      proof (cases "g = ?f")
        case True
        with tok nolive have "tok = issued E ?f n" by (simp add: l)
        then show ?thesis using rt[OF d] by (simp add: s' True)
      next
        case False
        with tok have "tok \<in> set (live w g)" by (simp add: l)
        from cd(5)[OF this] show ?thesis using False by (simp add: s')
      qed
    qed
  qed
  then show ?thesis by (simp add: u)
qed

lemma deleteTokens_filter:
  "deleteTokens E f toks w = (r, w') \<Longrightarrow> \<exists>P. acl_tokens w' = filter P (acl_tokens w)"
proof (induction toks arbitrary: w)
  case Nil
  then have "acl_tokens w' = filter (\<lambda>_. True) (acl_tokens w)" by simp
  then show ?case by blast
next
  case (Cons tok toks)
  obtain r1 w1 where d: "TokenDelete E (ACLToken.AccessorID tok) w = (r1, w1)"
    by (cases "TokenDelete E (ACLToken.AccessorID tok) w")
  note c = TokenDelete_cases[OF d]
  show ?case
  proof (cases r1)
    case (Some err)
    with Cons.prems d c have "acl_tokens w' = filter (\<lambda>_. True) (acl_tokens w)" by simp
    then show ?thesis by blast
  next
    case None
    let ?w2 = "Log_Info ''token deleted successfully'' [''service'', f] w1"
    from Cons.prems d None have rec: "deleteTokens E f toks ?w2 = (r, w')" by simp
    from Cons.IH[OF rec] obtain P where "acl_tokens w' = filter P (acl_tokens ?w2)" by blast
    with c None have "acl_tokens w' =
        filter (\<lambda>x. ACLToken.AccessorID x \<noteq> ACLToken.AccessorID tok \<and> P x) (acl_tokens w)"
      by simp
    then show ?thesis by blast
  qed
qed

lemma DeleteTokenInfo_effect:
  assumes "DeleteTokenInfo E l f toks w = (r, w')"
  shows "length (calls w) \<le> length (calls w') \<and>
     (\<exists>P. acl_tokens w' = filter P (acl_tokens w)) \<and>
     (secrets w' = secrets w \<or>
      secrets w' = (secrets w)(secretName (TaskDefinitionLister.SecretPrefix l) f \<mapsto> Some ''{}'') \<and>
      acl_tokens w' =
        filter (\<lambda>tok. ACLToken.AccessorID tok \<notin> ACLToken.AccessorID ` set toks) (acl_tokens w))"
proof -
  let ?n = "secretName (TaskDefinitionLister.SecretPrefix l) f"
  obtain r1 w1 where d: "deleteTokens E f toks w = (r1, w1)"
    by (cases "deleteTokens E f toks w")
  note fr = deleteTokens_frame[OF d]
  note fl = deleteTokens_filter[OF d]
  from fr have len1: "length (calls w) \<le> length (calls w1)" by auto
  show ?thesis
  proof (cases r1)
    case (Some err)
    with assms d have "w' = w1" by (simp add: DeleteTokenInfo_def)
    with fr fl len1 show ?thesis by simp
  next
    case None
    let ?w2 = "Log_Info ''updating secret'' [''name'', ?n, ''service'', f] w1"
    obtain r2 w3 where u: "UpdateSecret E ?n ''{}'' ?w2 = (r2, w3)"
      by (cases "UpdateSecret E ?n ''{}'' ?w2")
    note uc = UpdateSecret_cases[OF u]
    note ds = deleteTokens_success[OF d[unfolded None]]
    show ?thesis
    proof (cases r2)
      case (Some err)
      with assms d None u have "w' = w3" by (simp add: DeleteTokenInfo_def Let_def)
      with uc Some fr fl len1 show ?thesis by simp
    next
      case n2: None
      with assms d None u
      have "w' = Log_Info ''secret updated successfully'' [''name'', ?n, ''service'', f] w3"
        by (simp add: DeleteTokenInfo_def Let_def)
      with uc n2 fr fl len1 ds show ?thesis by simp
    qed
  qed
qed

lemma DeleteTokenInfo_consistent:
  assumes c: "consistent E (TaskDefinitionLister.SecretPrefix l) w"
    and cover: "\<forall>tok\<in>set (acl_tokens w). owned f tok \<longrightarrow>
                  ACLToken.AccessorID tok \<in> ACLToken.AccessorID ` set toks"
  shows "consistent E (TaskDefinitionLister.SecretPrefix l) (snd (DeleteTokenInfo E l f toks w))"
proof -
  let ?p = "TaskDefinitionLister.SecretPrefix l"
  obtain r w' where u: "DeleteTokenInfo E l f toks w = (r, w')"
    by (cases "DeleteTokenInfo E l f toks w")
  note cd = consistentD[OF c]
  from DeleteTokenInfo_effect[OF u] obtain P where
    len: "length (calls w) \<le> length (calls w')"
    and P: "acl_tokens w' = filter P (acl_tokens w)"
    and s: "secrets w' = secrets w \<or>
      secrets w' = (secrets w)(secretName ?p f \<mapsto> Some ''{}'') \<and>
      acl_tokens w' =
        filter (\<lambda>tok. ACLToken.AccessorID tok \<notin> ACLToken.AccessorID ` set toks) (acl_tokens w)"
    by blast
  have l: "\<And>g. live w' g = filter P (live w g)"
    by (auto simp: live_def P intro: filter_cong)
  have sub: "set (acl_tokens w') \<subseteq> set (acl_tokens w)" by (simp add: P)
  have "consistent E ?p w'"
  proof (rule consistentI)
    show "distinct (map ACLToken.AccessorID (acl_tokens w'))"
      using cd(1) by (simp add: P distinct_map_filter)
    show "\<And>tok. tok \<in> set (acl_tokens w') \<Longrightarrow> ACLToken.AccessorID tok \<noteq> ''''"
      using cd(2) sub by blast
    show "\<And>n. length (calls w') \<le> n \<Longrightarrow> fst (issue E n) \<notin> ACLToken.AccessorID ` set (acl_tokens w')"
      using cd(3) len sub by (meson image_mono le_trans subsetD)
  next
    fix g
    have "length (live w' g) \<le> length (live w g)" by (simp add: l)
    with cd(4)[of g] show "length (live w' g) \<le> 1" by simp
  next
    fix g tok assume tok: "tok \<in> set (live w' g)"
    then have tw: "tok \<in> set (live w g)" by (simp add: l)
    from s show "\<exists>doc v. secrets w' (secretName ?p g) = Some (Some doc) \<and>
                    Unmarshal E doc = Inr v \<and>
                    tokenSecretJSON.AccessorID v = ACLToken.AccessorID tok"
    proof
      assume "secrets w' = secrets w"
      with cd(5)[OF tw] show ?thesis by simp
    next
      assume a: "secrets w' = (secrets w)(secretName ?p f \<mapsto> Some ''{}'') \<and>
        acl_tokens w' =
          filter (\<lambda>tok. ACLToken.AccessorID tok \<notin> ACLToken.AccessorID ` set toks) (acl_tokens w)"
      have "g \<noteq> f"
      proof
        assume "g = f"
        with tok have "owned f tok" "tok \<in> set (acl_tokens w')" by (simp_all add: live_def)
        with a cover show False by auto
      qed
      with cd(5)[OF tw] a show ?thesis by simp
    qed
  qed
  then show ?thesis by (simp add: u)
qed

lemma run_consistent:
  assumes "honest E"
  shows "consistent E (TaskDefinitionLister.SecretPrefix l) w \<Longrightarrow> clean_run E l ops w \<Longrightarrow>
         \<forall>w'\<in>set (run E l ops w). consistent E (TaskDefinitionLister.SecretPrefix l) w'"
proof (induction ops arbitrary: w)
  case Nil
  then show ?case by simp
next
  case (Cons x xs)
  from Cons.prems(2) have st: "clean_step E l x w"
    and rest: "clean_run E l xs (snd (exec E l x w))" by simp_all
  have c': "consistent E (TaskDefinitionLister.SecretPrefix l) (snd (exec E l x w))"
  proof (cases x)
    case (OpUpsert t)
    with st show ?thesis
      using Upsert_consistent[OF assms Cons.prems(1), of t] by simp
  next
    case (OpDelete f toks)
    with st have cover: "\<forall>tok\<in>set (acl_tokens w). owned f tok \<longrightarrow>
                  ACLToken.AccessorID tok \<in> ACLToken.AccessorID ` set toks" by simp
    from DeleteTokenInfo_consistent[OF Cons.prems(1) cover] OpDelete show ?thesis by simp
  qed
  from Cons.IH[OF c' rest] c' show ?case by simp
qed

lemma Upsert_creates_only_without_token:
  assumes "acl_tokens (snd (Upsert E t w)) \<noteq> acl_tokens w"
  shows "\<exists>doc v. secrets w (secretName (TaskFamily.SecretPrefix t) (TaskFamily t)) = Some (Some doc) \<and>
           Unmarshal E doc = Inr v \<and>
           (tokenSecretJSON.AccessorID v = '''' \<or>
            (\<exists>err. fst (TokenRead E (tokenSecretJSON.AccessorID v)
                          (record_call (SM_Get (secretName (TaskFamily.SecretPrefix t) (TaskFamily t))) w))
                     = Inl err \<and> isACLNotFoundError (Some err)))"
proof -
  obtain r w' where u: "Upsert E t w = (r, w')" by (cases "Upsert E t w")
  from Upsert_effect[OF u] assms u show ?thesis by auto
qed

text \<open>
  \<open>Upsert\<close> creates a token only when the secret of the family decodes to a record whose
  \<open>accessor_id\<close> is empty, or is the accessor of a token that Consul reports as not
  found. For an honest environment and from a consistent state, every sequence of
  \<open>Upsert\<close> and \<open>DeleteTokenInfo\<close> calls with the lister's secret prefix in which no
  \<open>Upsert\<close> fails after having created a token, and every deletion is given all live
  tokens owned for its family, leaves at most one live token owned for each family
  after every operation.
\<close>

lemma clean_runs_keep_one_live_token:
  assumes "honest E"
    and "consistent E (TaskDefinitionLister.SecretPrefix l) w"
    and "clean_run E l ops w"
  shows "(\<forall>w'\<in>set (run E l ops w). \<forall>family. length (live w' family) \<le> 1) \<and>
         (\<forall>t w0. acl_tokens (snd (Upsert E t w0)) \<noteq> acl_tokens w0 \<longrightarrow>
            (\<exists>doc v. secrets w0 (secretName (TaskFamily.SecretPrefix t) (TaskFamily t)) = Some (Some doc) \<and>
               Unmarshal E doc = Inr v \<and>
               (tokenSecretJSON.AccessorID v = '''' \<or>
                (\<exists>err. fst (TokenRead E (tokenSecretJSON.AccessorID v)
                              (record_call (SM_Get (secretName (TaskFamily.SecretPrefix t) (TaskFamily t))) w0))
                         = Inl err \<and> isACLNotFoundError (Some err)))))"
proof (intro conjI ballI allI impI)
  fix w' family
  assume "w' \<in> set (run E l ops w)"
  with run_consistent[OF assms] have "consistent E (TaskDefinitionLister.SecretPrefix l) w'"
    by blast
  then show "length (live w' family) \<le> 1" by (rule consistentD(4))
next
  fix t w0
  assume "acl_tokens (snd (Upsert E t w0)) \<noteq> acl_tokens w0"
  then show "\<exists>doc v. secrets w0 (secretName (TaskFamily.SecretPrefix t) (TaskFamily t)) = Some (Some doc) \<and>
               Unmarshal E doc = Inr v \<and>
               (tokenSecretJSON.AccessorID v = '''' \<or>
                (\<exists>err. fst (TokenRead E (tokenSecretJSON.AccessorID v)
                              (record_call (SM_Get (secretName (TaskFamily.SecretPrefix t) (TaskFamily t))) w0))
                         = Inl err \<and> isACLNotFoundError (Some err)))"
    by (rule Upsert_creates_only_without_token)
qed

lemma Split_skip: "sep \<notin> set a \<Longrightarrow> Split (a @ sep # rest) sep = a # Split rest sep"
  by (induction a) auto

lemma Split_none: "sep \<notin> set a \<Longrightarrow> Split a sep = [a]"
  by (induction a) auto

lemma example_codec_roundtrip:
  assumes "example_Marshal v = Inr doc"
  shows "example_Unmarshal doc = Inr v"
proof -
  obtain A T where v: "v = \<lparr>tokenSecretJSON.AccessorID = A, Token = T\<rparr>" by (cases v) auto
  from assms have A: "dq \<notin> set A" and T: "dq \<notin> set T"
    and doc: "doc = ''{'' @ dq # ''accessor_id'' @ dq # '':'' @ dq # A @ dq # '','' @ dq # ''token''
                @ dq # '':'' @ dq # T @ dq # ''}''"
    by (auto simp: example_Marshal_def v split: if_splits)
  have q: "dq \<notin> set ''{''" "dq \<notin> set ''accessor_id''" "dq \<notin> set '':''" "dq \<notin> set '',''"
    "dq \<notin> set ''token''" "dq \<notin> set ''}''"
    by (simp_all add: dq_def)
  have sp: "Split doc dq = [''{'', ''accessor_id'', '':'', A, '','', ''token'', '':'', T, ''}'']"
    unfolding doc
    by (simp only: Split_skip[OF q(1)] Split_skip[OF q(2)] Split_skip[OF q(3)] Split_skip[OF q(4)]
        Split_skip[OF q(5)] Split_skip[OF A] Split_skip[OF T] Split_none[OF q(6)])
  have ne: "doc \<noteq> ''{}''" unfolding doc by (simp add: dq_def)
  show ?thesis by (simp add: example_Unmarshal_def ne sp v)
qed

lemma example_env_honest: "honest (example_env no_faults)"
proof -
  have "inj (\<lambda>n. replicate (Suc n) (CHR ''a''))"
  proof (rule injI)
    fix x y assume "replicate (Suc x) (CHR ''a'') = replicate (Suc y) (CHR ''a'')"
    then have "length (replicate (Suc x) (CHR ''a'')) = length (replicate (Suc y) (CHR ''a''))"
      by (rule arg_cong)
    then show "x = y" by simp
  qed
  then show ?thesis
    by (simp add: honest_def no_faults_def example_codec_roundtrip)
qed

lemma empty_secret_world_consistent: "consistent (example_env no_faults) ''pfx'' empty_secret_world"
  by (simp add: consistent_def empty_secret_world_def live_def)

lemma example_run_clean:
  "clean_run (example_env no_faults) example_lister example_ops empty_secret_world"
  by (simp add: example_ops_def controller_eval live_def owned_def empty_secret_world_def
      no_faults_def)

lemma example_run_counts:
  "map (\<lambda>w'. length (live w' ''web''))
     (run (example_env no_faults) example_lister example_ops empty_secret_world) = [1, 1, 0, 1]"
  by (simp add: example_ops_def controller_eval live_def owned_def empty_secret_world_def
      no_faults_def)

text \<open>
  The example run: the environment is honest, the initial state consistent, the run
  clean, and the numbers of live tokens owned for \<open>web\<close> after the four operations are
  1, 1, 0 and 1.
\<close>

lemma example_run_keeps_one_live_token:
  "honest (example_env no_faults) \<and>
   consistent (example_env no_faults) (TaskDefinitionLister.SecretPrefix example_lister)
     empty_secret_world \<and>
   clean_run (example_env no_faults) example_lister example_ops empty_secret_world \<and>
   map (\<lambda>w'. length (live w' ''web''))
     (run (example_env no_faults) example_lister example_ops empty_secret_world) = [1, 1, 0, 1] \<and>
   list_all (\<lambda>w'. length (live w' ''web'') \<le> 1)
     (run (example_env no_faults) example_lister example_ops empty_secret_world) \<and>
   (\<exists>doc v. secrets empty_secret_world
               (secretName (TaskFamily.SecretPrefix example_family) (TaskFamily example_family))
               = Some (Some doc) \<and>
            Unmarshal (example_env no_faults) doc = Inr v \<and>
            (tokenSecretJSON.AccessorID v = '''' \<or>
             (\<exists>err. fst (TokenRead (example_env no_faults) (tokenSecretJSON.AccessorID v)
                           (record_call (SM_Get (secretName (TaskFamily.SecretPrefix example_family)
                                                            (TaskFamily example_family)))
                              empty_secret_world))
                      = Inl err \<and> isACLNotFoundError (Some err))))"
proof -
  have c: "consistent (example_env no_faults) (TaskDefinitionLister.SecretPrefix example_lister)
     empty_secret_world"
    using empty_secret_world_consistent by simp
  from clean_runs_keep_one_live_token[OF example_env_honest c example_run_clean]
  have "list_all (\<lambda>w'. length (live w' ''web'') \<le> 1)
     (run (example_env no_faults) example_lister example_ops empty_secret_world)"
    by (simp add: list_all_iff)
  moreover have ch: "acl_tokens (snd (Upsert (example_env no_faults) example_family empty_secret_world))
      \<noteq> acl_tokens empty_secret_world"
    by (simp add: first_run_state, simp add: empty_secret_world_def)
  note clean_runs_keep_one_live_token[OF example_env_honest c example_run_clean, THEN conjunct2,
      rule_format, OF ch]
  ultimately show ?thesis
    using example_env_honest c example_run_clean example_run_counts by blast
qed


end
